theory Spec2Isabelle
  imports Complex_Main "HOL-Library.Product_Lexorder" "HOL-Library.List_Lexorder"
    "HOL-Library.Char_ord"
begin

section \<open>Python values shared by the routes\<close>

text \<open>
  The exceptions the modelled code can raise. A result of type \<open>py_error + 'a\<close> is
  \<open>Inl e\<close> when the Python raises \<open>e\<close> and nothing catches it.
\<close>

datatype py_error =
  TypeError | ValueError | KeyError | IndexError | OperationalError | IntegrityError

text \<open>\<open>str.lower()\<close> on ASCII text.\<close>

definition lower_char :: "char \<Rightarrow> char" where
  "lower_char c =
     (if CHR ''A'' \<le> c \<and> c \<le> CHR ''Z'' then char_of (of_char c + (32::nat)) else c)"

definition lower :: "string \<Rightarrow> string" where
  "lower s = map lower_char s"

text \<open>\<open>sub in s\<close> for strings: \<open>sub\<close> occurs in \<open>s\<close> as a contiguous run.\<close>

fun contains :: "string \<Rightarrow> string \<Rightarrow> bool" where
  "contains sub [] = (sub = [])"
| "contains sub (c # cs) = (take (length sub) (c # cs) = sub \<or> contains sub cs)"

text \<open>\<open>s.startswith(p)\<close>.\<close>

definition startswith :: "string \<Rightarrow> string \<Rightarrow> bool" where
  "startswith s p = (take (length p) s = p)"

text \<open>
  \<open>s.replace(old, new)\<close> for a non-empty \<open>old\<close>: every occurrence, left to right, without
  overlap. The fuel is the length of the text, which the scan cannot outrun.
\<close>

fun replace_fuel :: "nat \<Rightarrow> string \<Rightarrow> string \<Rightarrow> string \<Rightarrow> string" where
  "replace_fuel 0 old new s = s"
| "replace_fuel (Suc n) old new [] = []"
| "replace_fuel (Suc n) old new (c # cs) =
     (if take (length old) (c # cs) = old
      then new @ replace_fuel n old new (drop (length old) (c # cs))
      else c # replace_fuel n old new cs)"

definition replace_str :: "string \<Rightarrow> string \<Rightarrow> string \<Rightarrow> string" where
  "replace_str old new s = replace_fuel (length s) old new s"

text \<open>Truthiness of an optional request field: \<open>None\<close> and the empty string are falsy.\<close>

fun falsy :: "string option \<Rightarrow> bool" where
  "falsy None = True"
| "falsy (Some s) = (s = [])"

section \<open>The resample route (app/routes/resample.py)\<close>

text \<open>\<open>TIMEFRAMES\<close>: the tags the route accepts and their minutes.\<close>

definition TIMEFRAMES :: "(string \<times> int) list" where
  "TIMEFRAMES = [(''3min'', 3), (''5min'', 5), (''15min'', 15), (''1hr'', 60)]"

definition get_table_type :: "string \<Rightarrow> string" where
  "get_table_type src_table =
     (if contains ''stock'' (lower src_table) then ''stock''
      else if contains ''vix'' (lower src_table) then ''vix''
      else ''option'')"

text \<open>
  The database server is outside the repository. It is modelled by what it lets through
  (\<open>can_connect\<close> for \<open>get_db_connection\<close>, \<open>accepts\<close> for one statement) and by the list of
  statements it has executed, which the routes extend.
\<close>

datatype sql_stmt =
    DropTableIfExists string string
  | CreateResampledTable string string
  | InsertResampledOption string string string int
  | InsertResampledStock string string string int

record server =
  can_connect :: "string \<Rightarrow> bool"
  accepts :: "sql_stmt \<Rightarrow> bool"

type_synonym executed = "sql_stmt list"

text \<open>
  \<open>create_resampled_table(schema, dest_table)\<close> of app/services/database.py. The model takes
  the positional arguments of a call as a list: Python binds exactly two of them and raises
  \<open>TypeError\<close> for any other number, before the body runs. In the body the connection is
  opened outside the \<open>try\<close>, so a failed connection propagates; a rejected statement is
  caught and turned into \<open>False\<close>.
\<close>

definition create_resampled_table ::
  "string list \<Rightarrow> server \<Rightarrow> executed \<Rightarrow> (py_error + bool) \<times> executed" where
  "create_resampled_table args srv ex =
     (case args of
        [schema_name, dest_table] \<Rightarrow>
          if \<not> can_connect srv schema_name then (Inl OperationalError, ex)
          else if \<not> accepts srv (DropTableIfExists schema_name dest_table) then (Inr False, ex)
          else if \<not> accepts srv (CreateResampledTable schema_name dest_table)
            then (Inr False, ex @ [DropTableIfExists schema_name dest_table])
          else (Inr True, ex @ [DropTableIfExists schema_name dest_table,
                                CreateResampledTable schema_name dest_table])
      | _ \<Rightarrow> (Inl TypeError, ex))"

text \<open>
  \<open>execute_resample_option\<close> and \<open>execute_resample_stock\<close> as the route sees them: one
  \<open>INSERT ... SELECT\<close> statement, \<open>True\<close> when the server ran it and \<open>False\<close> when it raised.
  What the statement computes from the rows is \<open>resample_option\<close> and \<open>resample_stock\<close>
  below.
\<close>

definition execute_resample_option ::
  "string \<Rightarrow> string \<Rightarrow> string \<Rightarrow> int \<Rightarrow> server \<Rightarrow> executed \<Rightarrow> (py_error + bool) \<times> executed" where
  "execute_resample_option schema_name src_table dest_table tf_minutes srv ex =
     (if \<not> can_connect srv schema_name then (Inl OperationalError, ex)
      else if accepts srv (InsertResampledOption schema_name src_table dest_table tf_minutes)
        then (Inr True, ex @ [InsertResampledOption schema_name src_table dest_table tf_minutes])
      else (Inr False, ex))"

definition execute_resample_stock ::
  "string \<Rightarrow> string \<Rightarrow> string \<Rightarrow> int \<Rightarrow> server \<Rightarrow> executed \<Rightarrow> (py_error + bool) \<times> executed" where
  "execute_resample_stock schema_name src_table dest_table tf_minutes srv ex =
     (if \<not> can_connect srv schema_name then (Inl OperationalError, ex)
      else if accepts srv (InsertResampledStock schema_name src_table dest_table tf_minutes)
        then (Inr True, ex @ [InsertResampledStock schema_name src_table dest_table tf_minutes])
      else (Inr False, ex))"

text \<open>One entry of the response's \<open>results\<close> list.\<close>

datatype tf_result =
    TfSuccess string string
  | TfFailure string string



datatype api_response =
    BadRequest string
  | ResampleDone "tf_result list"

record resample_request =
  rq_schema :: "string option"
  rq_table :: "string option"
  rq_timeframes :: "string list"

text \<open>
  The body of the \<open>for tf_name in timeframes\<close> loop for a tag that is in \<open>TIMEFRAMES\<close>. The
  call of \<open>create_resampled_table\<close> passes three positional arguments, as the route does.
\<close>

definition resample_timeframe ::
  "server \<Rightarrow> string \<Rightarrow> string \<Rightarrow> string \<Rightarrow> string \<Rightarrow> int \<Rightarrow> executed
     \<Rightarrow> (py_error + tf_result) \<times> executed" where
  "resample_timeframe srv schema_name src_table table_type tf_name tf_minutes ex =
     (let dest_table = replace_str ''_1min'' (''_'' @ tf_name) src_table in
      case create_resampled_table [schema_name, dest_table, table_type] srv ex of
        (Inl e, ex1) \<Rightarrow> (Inl e, ex1)
      | (Inr False, ex1) \<Rightarrow>
          (Inr (TfFailure tf_name ''Failed to create destination table''), ex1)
      | (Inr True, ex1) \<Rightarrow>
          (case (if table_type = ''stock'' \<or> table_type = ''vix''
                 then execute_resample_stock schema_name src_table dest_table tf_minutes srv ex1
                 else execute_resample_option schema_name src_table dest_table tf_minutes srv ex1) of
             (Inl e, ex2) \<Rightarrow> (Inl e, ex2)
           | (Inr True, ex2) \<Rightarrow> (Inr (TfSuccess tf_name dest_table), ex2)
           | (Inr False, ex2) \<Rightarrow> (Inr (TfFailure tf_name ''Failed to execute resampling''), ex2)))"

fun resample_loop ::
  "server \<Rightarrow> string \<Rightarrow> string \<Rightarrow> string \<Rightarrow> string list \<Rightarrow> tf_result list \<Rightarrow> executed
     \<Rightarrow> (py_error + tf_result list) \<times> executed" where
  "resample_loop srv schema_name src_table table_type [] results ex = (Inr results, ex)"
| "resample_loop srv schema_name src_table table_type (tf_name # rest) results ex =
     (case map_of TIMEFRAMES tf_name of
        None \<Rightarrow> resample_loop srv schema_name src_table table_type rest results ex
      | Some tf_minutes \<Rightarrow>
          (case resample_timeframe srv schema_name src_table table_type tf_name tf_minutes ex of
             (Inl e, ex1) \<Rightarrow> (Inl e, ex1)
           | (Inr r, ex1) \<Rightarrow>
               resample_loop srv schema_name src_table table_type rest (results @ [r]) ex1))"

definition api_resample ::
  "server \<Rightarrow> resample_request \<Rightarrow> executed \<Rightarrow> (py_error + api_response) \<times> executed" where
  "api_resample srv rq ex =
     (if falsy (rq_schema rq) \<or> falsy (rq_table rq) \<or> rq_timeframes rq = []
      then (Inr (BadRequest ''Missing required parameters''), ex)
      else
        (case resample_loop srv (the (rq_schema rq)) (the (rq_table rq))
                (get_table_type (the (rq_table rq))) (rq_timeframes rq) [] ex of
           (Inl e, ex1) \<Rightarrow> (Inl e, ex1)
         | (Inr results, ex1) \<Rightarrow> (Inr (ResampleDone results), ex1)))"



section \<open>SQL values of the resample statements\<close>

text \<open>
  A \<open>DATETIME\<close> is a calendar date and a time of day; both are ordered lexicographically,
  which is the chronological order. \<open>DATE(ts)\<close> is \<open>fst ts\<close> and \<open>TIME(ts)\<close> is \<open>snd ts\<close>.
\<close>

type_synonym date = "nat \<times> nat \<times> nat"
type_synonym time_of_day = "nat \<times> nat \<times> nat"
type_synonym datetime = "date \<times> time_of_day"

fun valid_time :: "time_of_day \<Rightarrow> bool" where
  "valid_time (h, mi, s) = (h < 24 \<and> mi < 60 \<and> s < 60)"

definition leap_year :: "nat \<Rightarrow> bool" where
  "leap_year y = (y mod 4 = 0 \<and> (y mod 100 \<noteq> 0 \<or> y mod 400 = 0))"

definition days_in_month :: "nat \<Rightarrow> nat \<Rightarrow> nat" where
  "days_in_month y m =
     (if m = 2 then (if leap_year y then 29 else 28)
      else if m = 4 \<or> m = 6 \<or> m = 9 \<or> m = 11 then 30 else 31)"

text \<open>The range of a MySQL \<open>DATETIME\<close> column.\<close>

fun valid_date :: "date \<Rightarrow> bool" where
  "valid_date (y, m, d) =
     (1000 \<le> y \<and> y \<le> 9999 \<and> 1 \<le> m \<and> m \<le> 12 \<and> 1 \<le> d \<and> d \<le> days_in_month y m)"

definition valid_datetime :: "datetime \<Rightarrow> bool" where
  "valid_datetime ts = (valid_date (fst ts) \<and> valid_time (snd ts))"

fun seconds_of_day :: "time_of_day \<Rightarrow> int" where
  "seconds_of_day (h, mi, s) = int h * 3600 + int mi * 60 + int s"

definition time_of_seconds :: "int \<Rightarrow> time_of_day" where
  "time_of_seconds n = (nat (n div 3600), nat (n mod 3600 div 60), nat (n mod 60))"

text \<open>The day number of a date in the proleptic Gregorian calendar (days since 0000-03-01).\<close>

fun day_number :: "date \<Rightarrow> int" where
  "day_number (y, m, d) =
     (let y' = (if m \<le> 2 then int y - 1 else int y);
          m' = (if m \<le> 2 then int m + 9 else int m - 3)
      in 365 * y' + y' div 4 - y' div 100 + y' div 400 + (153 * m' + 2) div 5 + int d - 1)"

definition epoch_seconds :: "datetime \<Rightarrow> int" where
  "epoch_seconds ts = day_number (fst ts) * 86400 + seconds_of_day (snd ts)"

text \<open>\<open>TIMESTAMPDIFF(MINUTE, a, b)\<close>: the whole minutes from \<open>a\<close> to \<open>b\<close>, truncated towards zero.\<close>

definition timestampdiff_minute :: "datetime \<Rightarrow> datetime \<Rightarrow> int" where
  "timestampdiff_minute a b =
     (let secs = epoch_seconds b - epoch_seconds a
      in if 0 \<le> secs then secs div 60 else - ((- secs) div 60))"

fun next_day :: "date \<Rightarrow> date" where
  "next_day (y, m, d) =
     (if d < days_in_month y m then (y, m, d + 1)
      else if m < 12 then (y, m + 1, 1)
      else (y + 1, 1, 1))"

fun prev_day :: "date \<Rightarrow> date" where
  "prev_day (y, m, d) =
     (if 1 < d then (y, m, d - 1)
      else if 1 < m then (y, m - 1, days_in_month y (m - 1))
      else (y - 1, 12, 31))"

text \<open>\<open>DATE_ADD(ts, INTERVAL n MINUTE)\<close>.\<close>

definition date_add_minute :: "datetime \<Rightarrow> int \<Rightarrow> datetime" where
  "date_add_minute ts n =
     (let total = seconds_of_day (snd ts) + 60 * n;
          shift = total div 86400
      in ((if 0 \<le> shift then (next_day ^^ nat shift) (fst ts)
           else (prev_day ^^ nat (- shift)) (fst ts)),
          time_of_seconds (total mod 86400)))"

text \<open>Decimal digits, and numbers printed with a fixed width.\<close>

definition digit_char :: "nat \<Rightarrow> char" where
  "digit_char n = char_of (48 + n)"

definition is_digit :: "char \<Rightarrow> bool" where
  "is_digit c = (CHR ''0'' \<le> c \<and> c \<le> CHR ''9'')"

text \<open>The last \<open>k\<close> decimal digits of \<open>n\<close>, with leading zeros.\<close>

fun zpad :: "nat \<Rightarrow> nat \<Rightarrow> string" where
  "zpad 0 n = []"
| "zpad (Suc k) n = zpad k (n div 10) @ [digit_char (n mod 10)]"

definition pad2 :: "nat \<Rightarrow> string" where
  "pad2 n = zpad 2 n"

definition pad4 :: "nat \<Rightarrow> string" where
  "pad4 n = zpad 4 n"

fun show_nat :: "nat \<Rightarrow> string" where
  "show_nat n = (if n < 10 then [digit_char n] else show_nat (n div 10) @ [digit_char (n mod 10)])"

declare show_nat.simps [simp del]

text \<open>\<open>DATE_FORMAT(ts, '%Y%m%d%H%i%s')\<close>.\<close>

fun date_format :: "datetime \<Rightarrow> string" where
  "date_format ((y, m, d), (h, mi, s)) = pad4 y @ pad2 m @ pad2 d @ pad2 h @ pad2 mi @ pad2 s"

text \<open>
  A \<open>DECIMAL(10,4)\<close> value is the integer number of its ten-thousandths. \<open>dec_text\<close> is the
  text MySQL gives it in a string context (\<open>CONCAT\<close>, \<open>GROUP_CONCAT\<close>): sign, integer part,
  point, four fraction digits.
\<close>

type_synonym decimal = int

definition decimal_10_4 :: "decimal \<Rightarrow> bool" where
  "decimal_10_4 v = (\<bar>v\<bar> < 10000000000)"

definition dec_text :: "decimal \<Rightarrow> string" where
  "dec_text v =
     (if v < 0 then ''-'' else []) @ show_nat (nat \<bar>v\<bar> div 10000) @ ''.''
       @ pad4 (nat \<bar>v\<bar> mod 10000)"

definition read_digit :: "char \<Rightarrow> nat option" where
  "read_digit c =
     (if is_digit c then Some (of_char c - 48) else None)"

fun read_digits :: "nat \<Rightarrow> string \<Rightarrow> nat option" where
  "read_digits acc [] = Some acc"
| "read_digits acc (c # cs) =
     (case read_digit c of None \<Rightarrow> None | Some d \<Rightarrow> read_digits (10 * acc + d) cs)"

definition read_nat :: "string \<Rightarrow> nat option" where
  "read_nat s = (if s = [] then None else read_digits 0 s)"

text \<open>
  The conversion of a text to \<open>DECIMAL(10,4)\<close> (\<open>CAST(... AS DECIMAL(10,4))\<close>, and the
  implicit conversion when a text is inserted into such a column), on decimal literals with
  an optional sign and at most four fraction digits. Any other text is outside the model.
\<close>

definition cast_decimal :: "string \<Rightarrow> decimal option" where
  "cast_decimal s =
     (let neg = (take 1 s = ''-'');
          body = (if neg then drop 1 s else s);
          ip = takeWhile (\<lambda>c. c \<noteq> CHR ''.'') body;
          fp = drop 1 (dropWhile (\<lambda>c. c \<noteq> CHR ''.'') body)
      in case (read_nat ip, if fp = [] then Some 0 else read_nat fp) of
           (Some i, Some f) \<Rightarrow>
             if length fp \<le> 4
             then Some ((if neg then - 1 else 1) * int (i * 10000 + f * 10 ^ (4 - length fp)))
             else None
         | _ \<Rightarrow> None)"

text \<open>
  \<open>SUBSTRING_INDEX(s, delim, 1)\<close>: the text before the first delimiter, and
  \<open>SUBSTRING_INDEX(s, delim, -1)\<close>: the text after the last one; all of \<open>s\<close> when it holds
  no delimiter.
\<close>

definition substring_index_first :: "char \<Rightarrow> string \<Rightarrow> string" where
  "substring_index_first delim s = takeWhile (\<lambda>c. c \<noteq> delim) s"

definition substring_index_last :: "char \<Rightarrow> string \<Rightarrow> string" where
  "substring_index_last delim s = rev (takeWhile (\<lambda>c. c \<noteq> delim) (rev s))"

text \<open>
  The aggregates \<open>MIN\<close>, \<open>MAX\<close> and \<open>SUM\<close> over the non-\<open>NULL\<close> values of a group: \<open>NULL\<close>
  (\<open>None\<close>) when there is none.
\<close>

fun sql_min :: "'a::linorder list \<Rightarrow> 'a option" where
  "sql_min [] = None"
| "sql_min (x # xs) = Some (fold min xs x)"

fun sql_max :: "'a::linorder list \<Rightarrow> 'a option" where
  "sql_max [] = None"
| "sql_max (x # xs) = Some (fold max xs x)"

fun sql_sum :: "int list \<Rightarrow> int option" where
  "sql_sum [] = None"
| "sql_sum (x # xs) = Some (sum_list (x # xs))"

text \<open>
  \<open>GROUP_CONCAT\<close> of texts already in order: joined with commas and cut at
  \<open>group_concat_max_len\<close>, whose default of 1024 the code leaves in place; \<open>NULL\<close> for no
  text.
\<close>

fun join_commas :: "string list \<Rightarrow> string" where
  "join_commas [] = []"
| "join_commas [t] = t"
| "join_commas (t # u # ts) = t @ '','' @ join_commas (u # ts)"

definition group_concat :: "string list \<Rightarrow> string option" where
  "group_concat texts = (if texts = [] then None else Some (take 1024 (join_commas texts)))"

section \<open>The resample statements (execute_resample_option, execute_resample_stock)\<close>

text \<open>
  A row of a stock or VIX table, and of an option table, as \<open>create_base_table\<close> declares
  them: the price columns and the volume may be \<open>NULL\<close>.
\<close>

record stock_row =
  Timestamp :: datetime
  Open :: "decimal option"
  Close :: "decimal option"
  High :: "decimal option"
  Low :: "decimal option"
  Volume :: "int option"

record option_row = stock_row +
  StrikePrice :: int
  ContractType :: string
  ExpiryDate :: datetime

text \<open>\<open>TIME(Timestamp) BETWEEN '09:30:00' AND '15:59:00'\<close>.\<close>

definition in_session :: "datetime \<Rightarrow> bool" where
  "in_session ts = ((9, 30, 0) \<le> snd ts \<and> snd ts \<le> (15, 59, 0))"

text \<open>The \<open>WHERE\<close> clause of both statements.\<close>

definition where_clause :: "'a stock_row_scheme \<Rightarrow> bool" where
  "where_clause r =
     (in_session (Timestamp r) \<and> Open r \<noteq> None \<and> Close r \<noteq> None
      \<and> High r \<noteq> None \<and> Low r \<noteq> None)"

text \<open>\<open>CONCAT(DATE(Timestamp), ' 09:30:00')\<close>.\<close>

definition session_open :: "datetime \<Rightarrow> datetime" where
  "session_open ts = (fst ts, (9, 30, 0))"

text \<open>
  \<open>FLOOR(TIMESTAMPDIFF(MINUTE, CONCAT(DATE(Timestamp), ' 09:30:00'), Timestamp) / tf_minutes)\<close>:
  the quotient is exact (a rational), then rounded down.
\<close>

definition bucket_id :: "datetime \<Rightarrow> int \<Rightarrow> int" where
  "bucket_id ts tf_minutes =
     \<lfloor>(of_int (timestampdiff_minute (session_open ts) ts) :: rat) / of_int tf_minutes\<rfloor>"

text \<open>
  \<open>DATE_ADD(CONCAT(DATE(Timestamp), ' 09:30:00'), INTERVAL bucket_id * tf_minutes MINUTE)\<close>.
\<close>

definition candle_ts :: "datetime \<Rightarrow> int \<Rightarrow> datetime" where
  "candle_ts ts tf_minutes =
     date_add_minute (session_open ts) (bucket_id ts tf_minutes * tf_minutes)"

text \<open>
  Option statement: \<open>SUBSTRING_INDEX(GROUP_CONCAT(Open ORDER BY Timestamp), ',', 1)\<close> and
  \<open>SUBSTRING_INDEX(GROUP_CONCAT(Close ORDER BY Timestamp DESC), ',', 1)\<close>. \<open>GROUP_CONCAT\<close>
  leaves out \<open>NULL\<close> values; the text lands in a \<open>DECIMAL(10,4)\<close> column.
\<close>

definition option_open :: "'a stock_row_scheme list \<Rightarrow> decimal option" where
  "option_open grp =
     Option.bind
       (group_concat (map dec_text (List.map_filter Open (sort_key Timestamp grp))))
       (\<lambda>s. cast_decimal (substring_index_first CHR '','' s))"

definition option_close :: "'a stock_row_scheme list \<Rightarrow> decimal option" where
  "option_close grp =
     Option.bind
       (group_concat (map dec_text (List.map_filter Close (rev (sort_key Timestamp grp)))))
       (\<lambda>s. cast_decimal (substring_index_first CHR '','' s))"

text \<open>
  Stock statement:
  \<open>CAST(SUBSTRING_INDEX(MIN(CONCAT(DATE_FORMAT(orig_ts, '%Y%m%d%H%i%s'), '|', Open)), '|', -1)
   AS DECIMAL(10,4))\<close>, and the same with \<open>MAX\<close> and \<open>Close\<close>. \<open>CONCAT\<close> with a \<open>NULL\<close> is
  \<open>NULL\<close>, which \<open>MIN\<close> and \<open>MAX\<close> skip.
\<close>

definition stamped ::
  "('a stock_row_scheme \<Rightarrow> decimal option) \<Rightarrow> 'a stock_row_scheme \<Rightarrow> string option" where
  "stamped col r = map_option (\<lambda>v. date_format (Timestamp r) @ ''|'' @ dec_text v) (col r)"

definition stock_open :: "'a stock_row_scheme list \<Rightarrow> decimal option" where
  "stock_open grp =
     Option.bind (sql_min (List.map_filter (stamped Open) grp))
       (\<lambda>s. cast_decimal (substring_index_last CHR ''|'' s))"

definition stock_close :: "'a stock_row_scheme list \<Rightarrow> decimal option" where
  "stock_close grp =
     Option.bind (sql_max (List.map_filter (stamped Close) grp))
       (\<lambda>s. cast_decimal (substring_index_last CHR ''|'' s))"

text \<open>
  The stock statement: the rows passing \<open>WHERE\<close>, grouped by \<open>candle_ts\<close>, one output row
  per group, in the order of \<open>ORDER BY candle_ts\<close>.
\<close>

definition stock_group ::
  "int \<Rightarrow> 'a stock_row_scheme list \<Rightarrow> datetime \<Rightarrow> 'a stock_row_scheme list" where
  "stock_group tf_minutes rows c =
     filter (\<lambda>r. candle_ts (Timestamp r) tf_minutes = c) (filter where_clause rows)"

definition stock_candle :: "datetime \<Rightarrow> 'a stock_row_scheme list \<Rightarrow> stock_row" where
  "stock_candle c grp =
     \<lparr> Timestamp = c, Open = stock_open grp, Close = stock_close grp,
       High = sql_max (List.map_filter High grp), Low = sql_min (List.map_filter Low grp),
       Volume = sql_sum (List.map_filter Volume grp) \<rparr>"

definition resample_stock :: "'a stock_row_scheme list \<Rightarrow> int \<Rightarrow> stock_row list" where
  "resample_stock rows tf_minutes =
     map (\<lambda>c. stock_candle c (stock_group tf_minutes rows c))
       (sort (remdups (map (\<lambda>r. candle_ts (Timestamp r) tf_minutes) (filter where_clause rows))))"

text \<open>
  The option statement: grouped by \<open>(StrikePrice, ContractType, ExpiryDate, candle_ts)\<close> and
  ordered by the same columns.
\<close>

type_synonym option_key = "int \<times> string \<times> datetime \<times> datetime"

definition option_key_of :: "int \<Rightarrow> option_row \<Rightarrow> option_key" where
  "option_key_of tf_minutes r =
     (StrikePrice r, ContractType r, ExpiryDate r, candle_ts (Timestamp r) tf_minutes)"

definition option_group :: "int \<Rightarrow> option_row list \<Rightarrow> option_key \<Rightarrow> option_row list" where
  "option_group tf_minutes rows k =
     filter (\<lambda>r. option_key_of tf_minutes r = k) (filter where_clause rows)"

fun option_candle :: "option_key \<Rightarrow> option_row list \<Rightarrow> option_row" where
  "option_candle (strike, ctype, expiry, c) grp =
     \<lparr> Timestamp = c, Open = option_open grp, Close = option_close grp,
       High = sql_max (List.map_filter High grp), Low = sql_min (List.map_filter Low grp),
       Volume = sql_sum (List.map_filter Volume grp),
       StrikePrice = strike, ContractType = ctype, ExpiryDate = expiry \<rparr>"

definition resample_option :: "option_row list \<Rightarrow> int \<Rightarrow> option_row list" where
  "resample_option rows tf_minutes =
     map (\<lambda>k. option_candle k (option_group tf_minutes rows k))
       (sort (remdups (map (option_key_of tf_minutes) (filter where_clause rows))))"

section \<open>Python values of the merge route\<close>

text \<open>
  A cell of a CSV frame or of a fetched database row: \<open>None\<close>, the float \<open>NaN\<close> pandas puts
  where a value is missing, an integer, a text, or a \<open>datetime\<close> (what the driver returns for
  a \<open>DATETIME\<close> column). Floats other than \<open>NaN\<close> are outside the model.
\<close>

datatype cell = PyNone | NaN | Num int | Text string | DT datetime

text \<open>
  \<open>str.isspace\<close>, which is also the class \<open>\s\<close> of \<open>re\<close>, on the code points below 256 (a
  character of the model is one of them), and \<open>s.strip()\<close>.
\<close>

definition is_space :: "char \<Rightarrow> bool" where
  "is_space c =
     (let n = (of_char c :: nat)
      in (9 \<le> n \<and> n \<le> 13) \<or> (28 \<le> n \<and> n \<le> 32) \<or> n = 133 \<or> n = 160)"

definition strip :: "string \<Rightarrow> string" where
  "strip s = rev (dropWhile is_space (rev (dropWhile is_space s)))"

text \<open>\<open>s.split(sep)[0]\<close> for a one-character separator: the text before its first occurrence.\<close>

definition split_head :: "char \<Rightarrow> string \<Rightarrow> string" where
  "split_head sep s = takeWhile (\<lambda>c. c \<noteq> sep) s"

text \<open>\<open>s.replace(a, b)\<close> for single characters.\<close>

definition replace_char :: "char \<Rightarrow> char \<Rightarrow> string \<Rightarrow> string" where
  "replace_char a b s = map (\<lambda>c. if c = a then b else c) s"

text \<open>\<open>val.strftime('%Y-%m-%d %H:%M:%S')\<close>, which is also \<open>str(val)\<close> for a datetime.\<close>

fun strftime :: "datetime \<Rightarrow> string" where
  "strftime ((y, m, d), (h, mi, s)) =
     pad4 y @ ''-'' @ pad2 m @ ''-'' @ pad2 d @ '' '' @ pad2 h @ '':'' @ pad2 mi @ '':'' @ pad2 s"

definition show_int :: "int \<Rightarrow> string" where
  "show_int i = (if i < 0 then ''-'' @ show_nat (nat (- i)) else show_nat (nat i))"

fun py_str :: "cell \<Rightarrow> string" where
  "py_str PyNone = ''None''"
| "py_str NaN = ''nan''"
| "py_str (Num i) = show_int i"
| "py_str (Text s) = s"
| "py_str (DT d) = strftime d"

text \<open>
  \<open>int(val)\<close>: an integer is itself; a text is stripped and read as an optionally signed
  decimal literal, in which single underscores may stand between digits (\<open>int('4_5')\<close> is 45),
  anything else in it raises \<open>ValueError\<close>; \<open>NaN\<close> raises \<open>ValueError\<close>; \<open>None\<close> and a datetime
  raise \<open>TypeError\<close>.
\<close>

fun digit_groups :: "string \<Rightarrow> bool" where
  "digit_groups [] = False"
| "digit_groups [c] = is_digit c"
| "digit_groups (c # d # cs) =
     (is_digit c \<and> (if d = CHR ''_'' then digit_groups cs else digit_groups (d # cs)))"

definition int_of_text :: "string \<Rightarrow> py_error + int" where
  "int_of_text s =
     (let t = strip s;
          neg = (take 1 t = ''-'');
          body = (if take 1 t = ''-'' \<or> take 1 t = ''+'' then drop 1 t else t)
      in if digit_groups body then
           (case read_nat (filter (\<lambda>c. c \<noteq> CHR ''_'') body) of
              None \<Rightarrow> Inl ValueError
            | Some n \<Rightarrow> Inr (if neg then - int n else int n))
         else Inl ValueError)"

fun py_int :: "cell \<Rightarrow> py_error + int" where
  "py_int PyNone = Inl TypeError"
| "py_int NaN = Inl ValueError"
| "py_int (Num i) = Inr i"
| "py_int (Text s) = int_of_text s"
| "py_int (DT d) = Inl TypeError"

text \<open>
  \<open>normalize_dt\<close>, the helper inside \<open>merge_option_data\<close>: \<open>None\<close> becomes the empty text, a
  value with \<open>strftime\<close> is formatted, and any other value is turned into text, its \<open>T\<close>
  replaced by a space, cut at the first \<open>.\<close> and then at the first \<open>+\<close>, and stripped.
\<close>

fun normalize_dt :: "cell \<Rightarrow> string" where
  "normalize_dt PyNone = []"
| "normalize_dt (DT d) = strftime d"
| "normalize_dt val =
     strip (split_head CHR ''+'' (split_head CHR ''.'' (replace_char CHR ''T'' CHR '' '' (py_str val))))"

section \<open>Frames, keys and the partition of a batch (app/routes/merge.py)\<close>

text \<open>
  A data frame: its column names and its rows; a row gives the cell of each column. The value
  of a row outside the frame's columns is never read.
\<close>

type_synonym csv_row = "string \<Rightarrow> cell"

record frame =
  fr_columns :: "string list"
  fr_rows :: "csv_row list"

definition empty_frame :: frame where
  "empty_frame = \<lparr> fr_columns = [], fr_rows = [] \<rparr>"

text \<open>
  \<open>pd.concat([a, b], ignore_index=True)\<close>: the columns of both, and \<open>NaN\<close> where a row's own
  frame lacks a column.
\<close>

definition fill_missing :: "string list \<Rightarrow> csv_row \<Rightarrow> csv_row" where
  "fill_missing cols r = (\<lambda>c. if c \<in> set cols then r c else NaN)"

definition concat_frames :: "frame \<Rightarrow> frame \<Rightarrow> frame" where
  "concat_frames a b =
     \<lparr> fr_columns = fr_columns a @ filter (\<lambda>c. c \<notin> set (fr_columns a)) (fr_columns b),
       fr_rows = map (fill_missing (fr_columns a)) (fr_rows a)
                 @ map (fill_missing (fr_columns b)) (fr_rows b) \<rparr>"

text \<open>The key columns for the selected table.\<close>

definition stock_like :: "string \<Rightarrow> bool" where
  "stock_like table_name = (table_name = ''ib_stock_1min'' \<or> table_name = ''ib_vix_1min'')"

definition key_cols :: "string \<Rightarrow> string list" where
  "key_cols table_name =
     (if stock_like table_name then [''Timestamp'']
      else [''StrikePrice'', ''ContractType'', ''ExpiryDate'', ''Timestamp''])"

text \<open>
  \<open>drop_duplicates(subset=cols)\<close> with the default \<open>keep='first'\<close>: a row is dropped when an
  earlier row has the same cells in the subset columns. \<open>seen\<close> holds the cell tuples met so
  far.
\<close>

fun keep_first :: "string list \<Rightarrow> cell list list \<Rightarrow> csv_row list \<Rightarrow> csv_row list" where
  "keep_first cols seen [] = []"
| "keep_first cols seen (r # rs) =
     (if map r cols \<in> set seen then keep_first cols seen rs
      else r # keep_first cols (map r cols # seen) rs)"

definition drop_duplicates :: "string list \<Rightarrow> frame \<Rightarrow> py_error + frame" where
  "drop_duplicates cols f =
     (if set cols \<subseteq> set (fr_columns f)
      then Inr (f \<lparr> fr_rows := keep_first cols [] (fr_rows f) \<rparr>)
      else Inl KeyError)"

text \<open>
  The identity key the route compares: the normalised timestamp for a stock or VIX table, and
  \<open>(int(StrikePrice), str(ContractType).strip(), normalize_dt(ExpiryDate),
  normalize_dt(Timestamp))\<close> for an option table.
\<close>

datatype identity_key =
    StockKey string
  | OptionKey int string string string

text \<open>The key of a fetched database row (\<open>row[0]\<close>, \<open>row[1]\<close>, ...), in the \<open>existing_keys\<close> loop.\<close>

definition existing_key :: "string \<Rightarrow> cell list \<Rightarrow> py_error + identity_key" where
  "existing_key table_name row =
     (if stock_like table_name then
        (case row of
           [] \<Rightarrow> Inl IndexError
         | ts # rest \<Rightarrow> Inr (StockKey (normalize_dt ts)))
      else
        (case row of
           strike # ctype # expiry # ts # rest \<Rightarrow>
             (case py_int strike of
                Inl e \<Rightarrow> Inl e
              | Inr i \<Rightarrow> Inr (OptionKey i (strip (py_str ctype)) (normalize_dt expiry)
                               (normalize_dt ts)))
         | _ \<Rightarrow> Inl IndexError))"

text \<open>The key of a CSV row, in \<open>row_exists\<close>.\<close>

definition row_key :: "string \<Rightarrow> csv_row \<Rightarrow> py_error + identity_key" where
  "row_key table_name row =
     (if stock_like table_name then Inr (StockKey (normalize_dt (row ''Timestamp'')))
      else
        (case py_int (row ''StrikePrice'') of
           Inl e \<Rightarrow> Inl e
         | Inr i \<Rightarrow> Inr (OptionKey i (strip (py_str (row ''ContractType'')))
                          (normalize_dt (row ''ExpiryDate'')) (normalize_dt (row ''Timestamp'')))))"

text \<open>Running a function that may raise over a list, stopping at the first exception.\<close>

fun traverse :: "('a \<Rightarrow> py_error + 'b) \<Rightarrow> 'a list \<Rightarrow> py_error + 'b list" where
  "traverse f [] = Inr []"
| "traverse f (x # xs) =
     (case f x of
        Inl e \<Rightarrow> Inl e
      | Inr y \<Rightarrow> (case traverse f xs of Inl e \<Rightarrow> Inl e | Inr ys \<Rightarrow> Inr (y # ys)))"

text \<open>
  The partition of the de-duplicated batch: \<open>mask = merged_data.apply(row_exists, axis=1)\<close>,
  \<open>duplicate_rows = merged_data[mask]\<close> and \<open>new_data = merged_data[~mask]\<close>.
\<close>

record partition =
  pt_new_rows :: "csv_row list"
  pt_duplicate_rows :: "csv_row list"

definition row_exists :: "string \<Rightarrow> identity_key list \<Rightarrow> csv_row \<Rightarrow> py_error + bool" where
  "row_exists table_name existing_keys row =
     (case row_key table_name row of
        Inl e \<Rightarrow> Inl e
      | Inr k \<Rightarrow> Inr (k \<in> set existing_keys))"

definition partition_rows ::
  "string \<Rightarrow> cell list list \<Rightarrow> csv_row list \<Rightarrow> py_error + partition" where
  "partition_rows table_name existing_rows rows =
     (case traverse (existing_key table_name) existing_rows of
        Inl e \<Rightarrow> Inl e
      | Inr existing_keys \<Rightarrow>
          (case traverse (row_exists table_name existing_keys) rows of
             Inl e \<Rightarrow> Inl e
           | Inr flags \<Rightarrow>
               Inr \<lparr> pt_new_rows = map fst (filter (\<lambda>(r, m). \<not> m) (zip rows flags)),
                     pt_duplicate_rows = map fst (filter (\<lambda>(r, m). m) (zip rows flags)) \<rparr>))"

section \<open>File names (parse_filename)\<close>

text \<open>
  The two regular expressions of \<open>parse_filename\<close>, matched by \<open>re.match\<close> against the
  lower-cased name, written out as the matcher they denote:
  \<open>.*_(?P<symbol>[a-zA-Z]+)_(?P<type>call|put)_(?P<tf>\d+\s*min)_.*\.csv$\<close> and
  \<open>.*_(?P<symbol>[a-zA-Z]+)_(?P<tf>\d+\s*min)\.csv$\<close>. The leading \<open>.*\<close> is greedy, so the
  match uses the rightmost underscore after which the rest of the pattern matches; \<open>.\<close> does
  not match a newline; each of \<open>[a-zA-Z]+\<close>, \<open>\d+\<close> and \<open>\s*\<close> is followed by a character outside
  its own class, so it takes the whole run; \<open>$\<close> matches at the end or before a final newline.
\<close>

record parsed_name =
  pn_symbol :: string
  pn_type :: string
  pn_tf :: string

definition is_alpha :: "char \<Rightarrow> bool" where
  "is_alpha c = ((CHR ''a'' \<le> c \<and> c \<le> CHR ''z'') \<or> (CHR ''A'' \<le> c \<and> c \<le> CHR ''Z''))"

definition newline :: char where
  "newline = char_of (10::nat)"

text \<open>
  \<open>.*\.csv$\<close>: a text without a newline that ends in \<open>.csv\<close>, possibly followed by one final
  newline.
\<close>

definition ends_csv :: "string \<Rightarrow> bool" where
  "ends_csv t = (4 \<le> length t \<and> drop (length t - 4) t = ''.csv'' \<and> newline \<notin> set t)"

definition csv_tail :: "string \<Rightarrow> bool" where
  "csv_tail t = (ends_csv t \<or> (t \<noteq> [] \<and> last t = newline \<and> ends_csv (butlast t)))"

text \<open>\<open>(?P<tf>\d+\s*min)\<close> at the start of \<open>t\<close>: the captured text and what follows it.\<close>

definition match_tf :: "string \<Rightarrow> (string \<times> string) option" where
  "match_tf t =
     (let ds = takeWhile is_digit t;
          r1 = dropWhile is_digit t;
          ws = takeWhile is_space r1;
          r2 = dropWhile is_space r1
      in if ds \<noteq> [] \<and> take 3 r2 = ''min'' then Some (ds @ ws @ ''min'', drop 3 r2) else None)"

text \<open>\<open>(?P<symbol>[a-zA-Z]+)_\<close> at the start of \<open>t\<close>.\<close>

definition match_symbol :: "string \<Rightarrow> (string \<times> string) option" where
  "match_symbol t =
     (let symb = takeWhile is_alpha t;
          r1 = dropWhile is_alpha t
      in if symb \<noteq> [] \<and> take 1 r1 = ''_'' then Some (symb, drop 1 r1) else None)"

text \<open>What follows the underscore chosen by the leading \<open>.*_\<close>, for the option pattern.\<close>

definition option_rest :: "string \<Rightarrow> parsed_name option" where
  "option_rest t =
     (case match_symbol t of
        None \<Rightarrow> None
      | Some (symb, r1) \<Rightarrow>
          (let ty = (if take 5 r1 = ''call_'' then Some (''call'', drop 5 r1)
                     else if take 4 r1 = ''put_'' then Some (''put'', drop 4 r1)
                     else None)
           in case ty of
                None \<Rightarrow> None
              | Some (ty_name, r2) \<Rightarrow>
                  (case match_tf r2 of
                     None \<Rightarrow> None
                   | Some (tf, r3) \<Rightarrow>
                       if take 1 r3 = ''_'' \<and> csv_tail (drop 1 r3)
                       then Some \<lparr> pn_symbol = symb, pn_type = ty_name, pn_tf = tf \<rparr>
                       else None)))"

text \<open>
  The same for the stock pattern, where \<open>\.csv$\<close> follows the timeframe at once; the type is
  set to \<open>stock\<close> by \<open>parse_filename\<close>.
\<close>

definition stock_rest :: "string \<Rightarrow> parsed_name option" where
  "stock_rest t =
     (case match_symbol t of
        None \<Rightarrow> None
      | Some (symb, r1) \<Rightarrow>
          (case match_tf r1 of
             None \<Rightarrow> None
           | Some (tf, r2) \<Rightarrow>
               if r2 = ''.csv'' \<or> r2 = ''.csv'' @ [newline]
               then Some \<lparr> pn_symbol = symb, pn_type = ''stock'', pn_tf = tf \<rparr>
               else None))"

text \<open>
  The leading \<open>.*_\<close>: the rightmost underscore, with no newline before it, after which \<open>rest\<close>
  matches.
\<close>

fun match_after_underscore :: "(string \<Rightarrow> parsed_name option) \<Rightarrow> string \<Rightarrow> parsed_name option" where
  "match_after_underscore rest [] = None"
| "match_after_underscore rest (c # cs) =
     (if c = newline then None
      else case match_after_underscore rest cs of
             Some r \<Rightarrow> Some r
           | None \<Rightarrow> if c = CHR ''_'' then rest cs else None)"

definition parse_filename :: "string \<Rightarrow> parsed_name option" where
  "parse_filename filename =
     (case match_after_underscore option_rest (lower filename) of
        Some r \<Rightarrow> Some (r \<lparr> pn_tf := filter (\<lambda>c. c \<noteq> CHR '' '') (pn_tf r) \<rparr>)
      | None \<Rightarrow>
          (case match_after_underscore stock_rest (lower filename) of
             Some r \<Rightarrow> Some (r \<lparr> pn_tf := filter (\<lambda>c. c \<noteq> CHR '' '') (pn_tf r) \<rparr>)
           | None \<Rightarrow> None))"

section \<open>The store and the merge route (merge_option_data)\<close>

text \<open>
  The database: for each schema the server has, its tables and their rows. A connection to a
  schema the server does not have raises. What the server keeps of an inserted row, as a
  later \<open>SELECT\<close> returns it (the column types are those of \<open>create_base_table\<close>), is not
  decided by the repository: it is the parameter \<open>as_stored\<close> of the route's model.
\<close>

type_synonym table_rows = "csv_row list"
type_synonym store = "string \<rightharpoonup> (string \<rightharpoonup> table_rows)"

definition BASE_TABLES :: "string list" where
  "BASE_TABLES = [''ib_2w_call_1min'', ''ib_2w_put_1min'', ''ib_stock_1min'']"

text \<open>
  \<open>create_base_table\<close>: \<open>CREATE TABLE IF NOT EXISTS\<close>. The connection is opened outside the
  \<open>try\<close>, so a failed connection propagates.
\<close>

definition create_base_table :: "string \<Rightarrow> string \<Rightarrow> store \<Rightarrow> (py_error + bool) \<times> store" where
  "create_base_table schema_name table_name st =
     (case st schema_name of
        None \<Rightarrow> (Inl OperationalError, st)
      | Some tables \<Rightarrow>
          (case tables table_name of
             Some rows \<Rightarrow> (Inr True, st)
           | None \<Rightarrow> (Inr True, st(schema_name \<mapsto> tables(table_name \<mapsto> [])))))"

text \<open>\<open>SELECT key_cols FROM table\<close>: the key cells of every row, or the exception raised.\<close>

definition select_keys :: "string \<Rightarrow> string \<Rightarrow> store \<Rightarrow> py_error + cell list list" where
  "select_keys schema_name table_name st =
     (case st schema_name of
        None \<Rightarrow> Inl OperationalError
      | Some tables \<Rightarrow>
          (case tables table_name of
             None \<Rightarrow> Inl OperationalError
           | Some rows \<Rightarrow> Inr (map (\<lambda>r. map r (key_cols table_name)) rows)))"

text \<open>
  \<open>new_data.to_sql(table, if_exists='append')\<close>: the rows are appended as the server stores
  them (to a new table when there is none of that name); the primary key on the key columns
  rejects the whole insert when two stored rows would share their key cells.
\<close>

definition to_sql ::
  "(csv_row \<Rightarrow> csv_row) \<Rightarrow> string \<Rightarrow> string \<Rightarrow> csv_row list \<Rightarrow> store \<Rightarrow> py_error + store" where
  "to_sql as_stored schema_name table_name new_rows st =
     (case st schema_name of
        None \<Rightarrow> Inl OperationalError
      | Some tables \<Rightarrow>
          (let rows = (case tables table_name of None \<Rightarrow> [] | Some rows \<Rightarrow> rows);
               rows' = rows @ map as_stored new_rows
           in if distinct (map (\<lambda>r. map r (key_cols table_name)) rows')
              then Inr (st(schema_name \<mapsto> tables(table_name \<mapsto> rows')))
              else Inl IntegrityError))"

text \<open>An uploaded file: its name, and what \<open>pd.read_csv\<close> makes of it.\<close>

record upload =
  up_filename :: string
  up_read_csv :: "py_error + frame"

record merge_request =
  mr_schema :: "string option"
  mr_table :: "string option"
  mr_files :: "upload list"

text \<open>The places where the route returns status 400.\<close>

datatype rejection =
    MissingSchemaOrTable
  | NoFilesUploaded
  | InvalidTable
  | InvalidFilenameFormat string
  | SymbolNotInSchema string
  | OptionFileForStockTable string
  | VixFileForStockTable string
  | OptionFileForVixTable string
  | NotVixFileForVixTable string
  | StockFileForOptionTable string
  | TypeOrTimeframeNotInTable string

record merge_counts =
  mc_total_rows :: nat
  mc_rows_inserted :: nat
  mc_duplicates_skipped :: nat
  mc_csv_dupes :: nat

datatype merge_response =
    Rejected400 rejection
  | ErrorReading500 string
  | DatabaseError500 py_error
  | MergeResult merge_counts

text \<open>The checks on one file name against the selected schema and table.\<close>

definition check_filename :: "string \<Rightarrow> string \<Rightarrow> string \<Rightarrow> rejection option" where
  "check_filename schema_name table_name filename =
     (case parse_filename filename of
        None \<Rightarrow> Some (InvalidFilenameFormat filename)
      | Some parsed \<Rightarrow>
          if \<not> startswith (lower schema_name) (pn_symbol parsed @ ''_'')
            then Some (SymbolNotInSchema filename)
          else if table_name = ''ib_stock_1min'' then
            (if pn_type parsed \<noteq> ''stock'' then Some (OptionFileForStockTable filename)
             else if pn_symbol parsed = ''vix'' then Some (VixFileForStockTable filename)
             else None)
          else if table_name = ''ib_vix_1min'' then
            (if pn_type parsed \<noteq> ''stock'' then Some (OptionFileForVixTable filename)
             else if pn_symbol parsed \<noteq> ''vix'' then Some (NotVixFileForVixTable filename)
             else None)
          else
            (if pn_type parsed = ''stock'' then Some (StockFileForOptionTable filename)
             else if \<not> contains (pn_type parsed) (lower table_name)
                     \<or> \<not> contains (pn_tf parsed) (lower table_name)
               then Some (TypeOrTimeframeNotInTable filename)
             else None))"

text \<open>The validation loop: files with an empty name are skipped, the first failure returns.\<close>

fun check_filenames :: "string \<Rightarrow> string \<Rightarrow> upload list \<Rightarrow> rejection option" where
  "check_filenames schema_name table_name [] = None"
| "check_filenames schema_name table_name (f # fs) =
     (if up_filename f = [] then check_filenames schema_name table_name fs
      else case check_filename schema_name table_name (up_filename f) of
             Some r \<Rightarrow> Some r
           | None \<Rightarrow> check_filenames schema_name table_name fs)"

text \<open>
  The reading loop: \<open>merged_data\<close> and \<open>total_rows_from_csv\<close>, or the name of the file whose
  reading raised.
\<close>

fun read_files :: "upload list \<Rightarrow> frame \<Rightarrow> nat \<Rightarrow> string + (frame \<times> nat)" where
  "read_files [] merged total_rows = Inr (merged, total_rows)"
| "read_files (f # fs) merged total_rows =
     (if up_filename f = [] then read_files fs merged total_rows
      else case up_read_csv f of
             Inl e \<Rightarrow> Inl (up_filename f)
           | Inr df \<Rightarrow> read_files fs (concat_frames merged df) (total_rows + length (fr_rows df)))"

text \<open>
  The body of the \<open>try\<close> block: read the existing keys, partition the batch, insert the new
  rows. Any exception inside becomes the response \<open>Database error\<close> and leaves the store as
  it was.
\<close>

definition merge_into_table ::
  "(csv_row \<Rightarrow> csv_row) \<Rightarrow> string \<Rightarrow> string \<Rightarrow> csv_row list \<Rightarrow> store
     \<Rightarrow> py_error + (nat \<times> nat \<times> store)" where
  "merge_into_table as_stored schema_name table_name rows st =
     (case select_keys schema_name table_name st of
        Inl e \<Rightarrow> Inl e
      | Inr existing_rows \<Rightarrow>
          (case partition_rows table_name existing_rows rows of
             Inl e \<Rightarrow> Inl e
           | Inr p \<Rightarrow>
               (let duplicates_skipped = length rows - length (pt_new_rows p)
                in if 0 < length (pt_new_rows p) then
                     (case to_sql as_stored schema_name table_name (pt_new_rows p) st of
                        Inl e \<Rightarrow> Inl e
                      | Inr st' \<Rightarrow> Inr (length (pt_new_rows p), duplicates_skipped, st'))
                   else Inr (0, duplicates_skipped, st))))"

text \<open>
  The \<open>POST\<close> branch of \<open>merge_option_data\<close>. The result is the response and the store after
  the request; \<open>Inl\<close> is an exception that leaves the route (a failed connection in
  \<open>create_base_table\<close>, a \<open>KeyError\<close> in \<open>drop_duplicates\<close>). Writing the log file is left out.
\<close>

definition merge_option_data ::
  "(csv_row \<Rightarrow> csv_row) \<Rightarrow> merge_request \<Rightarrow> store \<Rightarrow> (py_error + merge_response) \<times> store" where
  "merge_option_data as_stored rq st =
     (if falsy (mr_schema rq) \<or> falsy (mr_table rq)
        then (Inr (Rejected400 MissingSchemaOrTable), st)
      else if mr_files rq = [] \<or> list_all (\<lambda>f. up_filename f = []) (mr_files rq)
        then (Inr (Rejected400 NoFilesUploaded), st)
      else
        (let schema_name = the (mr_schema rq); table_name = the (mr_table rq)
         in if table_name \<notin> set BASE_TABLES then (Inr (Rejected400 InvalidTable), st)
            else
              (case create_base_table schema_name table_name st of
                 (Inl e, st1) \<Rightarrow> (Inl e, st1)
               | (Inr created, st1) \<Rightarrow>
                   (case check_filenames schema_name table_name (mr_files rq) of
                      Some r \<Rightarrow> (Inr (Rejected400 r), st1)
                    | None \<Rightarrow>
                        (case read_files (mr_files rq) empty_frame 0 of
                           Inl name \<Rightarrow> (Inr (ErrorReading500 name), st1)
                         | Inr (merged, total_rows) \<Rightarrow>
                             (case drop_duplicates (key_cols table_name) merged of
                                Inl e \<Rightarrow> (Inl e, st1)
                              | Inr deduped \<Rightarrow>
                                  (let csv_dupes =
                                         length (fr_rows merged) - length (fr_rows deduped)
                                   in case merge_into_table as_stored schema_name table_name
                                             (fr_rows deduped) st1 of
                                        Inl e \<Rightarrow> (Inr (DatabaseError500 e), st1)
                                      | Inr (inserted, skipped, st2) \<Rightarrow>
                                          (Inr (MergeResult
                                                  \<lparr> mc_total_rows = total_rows,
                                                    mc_rows_inserted = inserted,
                                                    mc_duplicates_skipped = skipped,
                                                    mc_csv_dupes = csv_dupes \<rparr>), st2))))))))"

section \<open>What the merge claims say, as functions of the route's parts\<close>

text \<open>
  The partition of a batch as the route computes it between reading the files and inserting:
  \<open>csv_dupes_count\<close> (the rows \<open>drop_duplicates\<close> removed) and the two row sets.
\<close>

definition partition_batch ::
  "string \<Rightarrow> cell list list \<Rightarrow> frame \<Rightarrow> py_error + (nat \<times> partition)" where
  "partition_batch table_name existing_rows merged =
     (case drop_duplicates (key_cols table_name) merged of
        Inl e \<Rightarrow> Inl e
      | Inr deduped \<Rightarrow>
          (case partition_rows table_name existing_rows (fr_rows deduped) of
             Inl e \<Rightarrow> Inl e
           | Inr p \<Rightarrow> Inr (length (fr_rows merged) - length (fr_rows deduped), p)))"

text \<open>The cells \<open>drop_duplicates\<close> compares: the key columns as they stand in the frame.\<close>

definition raw_key :: "string \<Rightarrow> csv_row \<Rightarrow> cell list" where
  "raw_key table_name r = map r (key_cols table_name)"

text \<open>The identity keys of the new rows of a batch, in order.\<close>

definition new_row_keys ::
  "string \<Rightarrow> cell list list \<Rightarrow> frame \<Rightarrow> (py_error + identity_key) list" where
  "new_row_keys table_name existing_rows merged =
     (case partition_batch table_name existing_rows merged of
        Inl e \<Rightarrow> []
      | Inr (csv_dupes, p) \<Rightarrow> map (row_key table_name) (pt_new_rows p))"

section \<open>Example batches\<close>

definition option_csv_row :: "cell \<Rightarrow> cell \<Rightarrow> cell \<Rightarrow> cell \<Rightarrow> csv_row" where
  "option_csv_row strike ctype expiry ts =
     (\<lambda>c. if c = ''StrikePrice'' then strike
          else if c = ''ContractType'' then ctype
          else if c = ''ExpiryDate'' then expiry
          else if c = ''Timestamp'' then ts
          else NaN)"

definition option_columns :: "string list" where
  "option_columns = [''StrikePrice'', ''ContractType'', ''ExpiryDate'', ''Timestamp'']"

text \<open>One contract and minute, written with a space and with a \<open>T\<close> between date and time.\<close>

definition row_with_space :: csv_row where
  "row_with_space =
     option_csv_row (Num 450) (Text ''call'') (Text ''2026-02-20 00:00:00'')
       (Text ''2026-02-03 09:31:00'')"

definition row_with_T :: csv_row where
  "row_with_T =
     option_csv_row (Num 450) (Text ''call'') (Text ''2026-02-20 00:00:00'')
       (Text ''2026-02-03T09:31:00'')"

definition two_formats_batch :: frame where
  "two_formats_batch =
     \<lparr> fr_columns = option_columns, fr_rows = [row_with_space, row_with_T] \<rparr>"

text \<open>A batch with a repeated row, over a table that already holds one of its keys.\<close>

definition row_0932 :: csv_row where
  "row_0932 =
     option_csv_row (Num 450) (Text ''call'') (Text ''2026-02-20 00:00:00'')
       (Text ''2026-02-03 09:32:00'')"

definition example_batch :: frame where
  "example_batch =
     \<lparr> fr_columns = option_columns, fr_rows = [row_with_space, row_0932, row_0932] \<rparr>"

definition example_existing_rows :: "cell list list" where
  "example_existing_rows =
     [[Num 450, Text ''call'', DT ((2026, 2, 20), (0, 0, 0)), DT ((2026, 2, 3), (9, 31, 0))]]"

section \<open>What the resample claims say, as predicates\<close>

text \<open>
  A source row as the tables can hold it: the timestamp is a \<open>DATETIME\<close> and the prices are
  in the range of \<open>DECIMAL(10,4)\<close>.
\<close>

definition valid_row :: "'a stock_row_scheme \<Rightarrow> bool" where
  "valid_row r =
     (valid_datetime (Timestamp r)
      \<and> (case Open r of None \<Rightarrow> True | Some v \<Rightarrow> decimal_10_4 v)
      \<and> (case Close r of None \<Rightarrow> True | Some v \<Rightarrow> decimal_10_4 v)
      \<and> (case High r of None \<Rightarrow> True | Some v \<Rightarrow> decimal_10_4 v)
      \<and> (case Low r of None \<Rightarrow> True | Some v \<Rightarrow> decimal_10_4 v))"

text \<open>
  The filter in the words of the specification: the time of day lies in the closed interval
  from 09:30:00 (34200 s) to 15:59:00 (57540 s) and the four prices are present.
\<close>

definition session_row :: "'a stock_row_scheme \<Rightarrow> bool" where
  "session_row r =
     (34200 \<le> seconds_of_day (snd (Timestamp r)) \<and> seconds_of_day (snd (Timestamp r)) \<le> 57540
      \<and> Open r \<noteq> None \<and> Close r \<noteq> None \<and> High r \<noteq> None \<and> Low r \<noteq> None)"

text \<open>A row of the group with the minimum, and with the maximum, timestamp.\<close>

definition first_by_timestamp :: "'a stock_row_scheme list \<Rightarrow> 'a stock_row_scheme \<Rightarrow> bool" where
  "first_by_timestamp grp r = (r \<in> set grp \<and> (\<forall>r'\<in>set grp. Timestamp r \<le> Timestamp r'))"

definition last_by_timestamp :: "'a stock_row_scheme list \<Rightarrow> 'a stock_row_scheme \<Rightarrow> bool" where
  "last_by_timestamp grp r = (r \<in> set grp \<and> (\<forall>r'\<in>set grp. Timestamp r' \<le> Timestamp r))"

definition volume_or_zero :: "'a stock_row_scheme \<Rightarrow> int" where
  "volume_or_zero r = (case Volume r of None \<Rightarrow> 0 | Some v \<Rightarrow> v)"

text \<open>
  The price rules of the aggregation in the words of the specification: \<open>c\<close> opens with the
  open of a row with the minimum timestamp, closes with the close of a row with the maximum
  timestamp, its high is the greatest high and its low the least low of the group.
\<close>

definition prices_of_group :: "'a stock_row_scheme list \<Rightarrow> 'b stock_row_scheme \<Rightarrow> bool" where
  "prices_of_group grp c =
     ((\<exists>r. first_by_timestamp grp r \<and> Open r \<noteq> None \<and> Open c = Open r)
      \<and> (\<exists>r. last_by_timestamp grp r \<and> Close r \<noteq> None \<and> Close c = Close r)
      \<and> (\<exists>h. High c = Some h \<and> (\<exists>r\<in>set grp. High r = Some h)
               \<and> (\<forall>r\<in>set grp. \<forall>v. High r = Some v \<longrightarrow> v \<le> h))
      \<and> (\<exists>l. Low c = Some l \<and> (\<exists>r\<in>set grp. Low r = Some l)
               \<and> (\<forall>r\<in>set grp. \<forall>v. Low r = Some v \<longrightarrow> l \<le> v)))"

text \<open>
  The aggregation rules in the words of the specification: the price rules, and the volume of
  \<open>c\<close> is the sum of the volumes of the group, a \<open>NULL\<close> volume counting as zero.
\<close>

definition candle_of_group :: "'a stock_row_scheme list \<Rightarrow> 'b stock_row_scheme \<Rightarrow> bool" where
  "candle_of_group grp c =
     (prices_of_group grp c \<and> Volume c = Some (sum_list (map volume_or_zero grp)))"

text \<open>
  The same with the volume of \<open>SUM(Volume)\<close>: \<open>NULL\<close> when every volume of the group is \<open>NULL\<close>,
  and otherwise the sum of the volumes that are present.
\<close>

definition sql_candle_of_group :: "'a stock_row_scheme list \<Rightarrow> 'b stock_row_scheme \<Rightarrow> bool" where
  "sql_candle_of_group grp c =
     (prices_of_group grp c
      \<and> Volume c = (if list_all (\<lambda>r. Volume r = None) grp then None
                     else Some (sum_list (map volume_or_zero grp))))"

text \<open>The grouping columns of an output row of the option statement.\<close>

definition option_key_of_candle :: "option_row \<Rightarrow> option_key" where
  "option_key_of_candle c = (StrikePrice c, ContractType c, ExpiryDate c, Timestamp c)"

section \<open>Example rows\<close>

text \<open>
  Minute bars of one trading day: three in the first three-minute bucket, one at the close of
  the session, one a minute after it, and one without an open price. Prices are in
  ten-thousandths.
\<close>

definition example_bar ::
  "datetime \<Rightarrow> decimal \<Rightarrow> decimal \<Rightarrow> decimal \<Rightarrow> decimal \<Rightarrow> int \<Rightarrow> stock_row" where
  "example_bar ts vo vc vh vl vol =
     \<lparr> Timestamp = ts, Open = Some vo, Close = Some vc, High = Some vh, Low = Some vl,
       Volume = Some vol \<rparr>"

definition bar_0930 :: stock_row where
  "bar_0930 = example_bar ((2026, 2, 3), (9, 30, 0)) 10000 10050 10075 9975 100"

definition bar_0931 :: stock_row where
  "bar_0931 = example_bar ((2026, 2, 3), (9, 31, 0)) 10050 10125 10150 10025 200"

definition bar_0932 :: stock_row where
  "bar_0932 = example_bar ((2026, 2, 3), (9, 32, 0)) 10125 10100 10200 10075 300"

definition bar_1559 :: stock_row where
  "bar_1559 = example_bar ((2026, 2, 3), (15, 59, 0)) 10300 10325 10350 10275 400"

definition bar_1600 :: stock_row where
  "bar_1600 = example_bar ((2026, 2, 3), (16, 0, 0)) 10325 10400 10425 10300 500"

definition bar_no_open :: stock_row where
  "bar_no_open =
     (example_bar ((2026, 2, 3), (9, 33, 0)) 10100 10110 10120 10090 50) \<lparr> Open := None \<rparr>"

definition bar_no_volume :: stock_row where
  "bar_no_volume =
     (example_bar ((2026, 2, 3), (9, 30, 0)) 10000 10050 10075 9975 0) \<lparr> Volume := None \<rparr>"

definition call_no_volume :: option_row where
  "call_no_volume =
     stock_row.extend bar_no_volume
       \<lparr> StrikePrice = 450, ContractType = ''call'', ExpiryDate = ((2026, 2, 20), (0, 0, 0)) \<rparr>"

definition example_stock_rows :: "stock_row list" where
  "example_stock_rows = [bar_0931, bar_0930, bar_0932, bar_1559, bar_1600, bar_no_open]"

definition example_option_bar :: "int \<Rightarrow> string \<Rightarrow> datetime \<Rightarrow> stock_row \<Rightarrow> option_row" where
  "example_option_bar strike ctype expiry b =
     stock_row.extend b \<lparr> StrikePrice = strike, ContractType = ctype, ExpiryDate = expiry \<rparr>"

definition call_450_0930 :: option_row where
  "call_450_0930 = example_option_bar 450 ''call'' ((2026, 2, 20), (0, 0, 0)) bar_0930"

definition call_450_0931 :: option_row where
  "call_450_0931 = example_option_bar 450 ''call'' ((2026, 2, 20), (0, 0, 0)) bar_0931"

definition call_455_0930 :: option_row where
  "call_455_0930 = example_option_bar 455 ''call'' ((2026, 2, 20), (0, 0, 0)) bar_0932"

definition example_option_rows :: "option_row list" where
  "example_option_rows = [call_450_0931, call_450_0930, call_455_0930]"

section \<open>Properties of the resample route\<close>

lemma create_resampled_table_three_args:
  "create_resampled_table [a, b, c] srv ex = (Inl TypeError, ex)"
  by (simp add: create_resampled_table_def)




text \<open>
  C7 (the code departs from the claim). The claim: a failure of table creation or of the
  insert for one timeframe yields a failure entry for that timeframe and the other requested
  timeframes still run. The route calls \<open>create_resampled_table\<close> with three arguments
  while the function takes two, so for a request with two supported timeframes the first
  call raises \<open>TypeError\<close>, nothing catches it, no statement is executed and no per-timeframe
  entry is produced for either timeframe.
\<close>

theorem api_resample_aborts_at_first_supported_timeframe:
  "api_resample srv
     \<lparr> rq_schema = Some ''qqq_opt'', rq_table = Some ''ib_2w_call_1min'',
       rq_timeframes = [''3min'', ''5min''] \<rparr> ex
   = (Inl TypeError, ex)"
  by (simp add: api_resample_def TIMEFRAMES_def resample_timeframe_def
      create_resampled_table_three_args)




section \<open>Properties of the SQL values\<close>

subsection \<open>Times of day\<close>

lemma in_session_seconds:
  "valid_time (snd ts) \<Longrightarrow>
   in_session ts \<longleftrightarrow> 34200 \<le> seconds_of_day (snd ts) \<and> seconds_of_day (snd ts) \<le> 57540"
  by (cases ts; cases "snd ts"; cases "snd (snd ts)")
    (auto simp: in_session_def less_eq_prod_def less_prod_def)

lemma timestampdiff_same_day:
  "34200 \<le> seconds_of_day (snd ts) \<Longrightarrow>
   timestampdiff_minute (session_open ts) ts = (seconds_of_day (snd ts) - 34200) div 60"
  by (simp add: timestampdiff_minute_def epoch_seconds_def session_open_def Let_def)

lemma bucket_id_div:
  "34200 \<le> seconds_of_day (snd ts) \<Longrightarrow>
   bucket_id ts tf = (seconds_of_day (snd ts) - 34200) div 60 div tf"
  by (simp add: bucket_id_def timestampdiff_same_day floor_divide_of_int_eq)

lemma seconds_of_time_of_seconds:
  assumes "0 \<le> n" "n < 86400"
  shows "seconds_of_day (time_of_seconds n) = n" and "valid_time (time_of_seconds n)"
proof -
  have m: "n mod 60 = n mod 3600 mod 60"
    by (simp add: mod_mod_cancel)
  have split: "n div 3600 * 3600 + (n mod 3600 div 60 * 60 + n mod 3600 mod 60) = n"
    by (simp only: div_mult_mod_eq)
  have nn: "0 \<le> n div 3600" "0 \<le> n mod 3600 div 60" "0 \<le> n mod 60"
    using assms(1) by (simp_all add: pos_imp_zdiv_nonneg_iff)
  have "seconds_of_day (time_of_seconds n)
        = n div 3600 * 3600 + n mod 3600 div 60 * 60 + n mod 60"
    using nn by (simp add: time_of_seconds_def)
  with split m show "seconds_of_day (time_of_seconds n) = n" by linarith
  have "n div 3600 < 24" using assms(2) by simp
  moreover have "n mod 3600 div 60 < 60" by simp
  moreover have "n mod 60 < 60" by simp
  ultimately show "valid_time (time_of_seconds n)"
    using nn by (simp add: time_of_seconds_def nat_less_iff)
qed

lemma candle_ts_in_session:
  assumes "in_session ts" "valid_time (snd ts)" "0 < tf"
  defines "e \<equiv> (seconds_of_day (snd ts) - 34200) div 60"
  shows "candle_ts ts tf = (fst ts, time_of_seconds (34200 + 60 * (e div tf * tf)))"
    and "0 \<le> e div tf * tf" and "e div tf * tf \<le> e" and "e < e div tf * tf + tf"
    and "34200 + 60 * e \<le> seconds_of_day (snd ts)"
    and "seconds_of_day (snd ts) < 34200 + 60 * e + 60"
    and "seconds_of_day (snd ts) \<le> 57540"
proof -
  from assms(1,2) have lo: "34200 \<le> seconds_of_day (snd ts)"
    and hi: "seconds_of_day (snd ts) \<le> 57540"
    by (simp_all add: in_session_seconds)
  from lo have e0: "0 \<le> e" by (simp add: e_def)
  show b0: "0 \<le> e div tf * tf" using e0 assms(3) by (simp add: pos_imp_zdiv_nonneg_iff)
  have "e div tf * tf + e mod tf = e" by simp
  moreover have "0 \<le> e mod tf" "e mod tf < tf" using assms(3) by simp_all
  ultimately show b1: "e div tf * tf \<le> e" and "e < e div tf * tf + tf" by linarith+
  show e1: "34200 + 60 * e \<le> seconds_of_day (snd ts)"
    and "seconds_of_day (snd ts) < 34200 + 60 * e + 60"
    unfolding e_def by linarith+
  show "seconds_of_day (snd ts) \<le> 57540" by (rule hi)
  have tot: "0 \<le> 34200 + 60 * (e div tf * tf)" "34200 + 60 * (e div tf * tf) < 86400"
    using b0 b1 e1 hi by linarith+
  then have "(34200 + 60 * (e div tf * tf)) div 86400 = 0"
    "(34200 + 60 * (e div tf * tf)) mod 86400 = 34200 + 60 * (e div tf * tf)"
    by simp_all
  then show "candle_ts ts tf = (fst ts, time_of_seconds (34200 + 60 * (e div tf * tf)))"
    using lo
    by (simp add: candle_ts_def date_add_minute_def session_open_def bucket_id_div e_def Let_def)
qed

subsection \<open>Digits and fixed-width numbers\<close>

lemma of_char_digit: "n < 10 \<Longrightarrow> of_char (digit_char n) = 48 + n"
  by (simp add: digit_char_def)

lemma digit_char_less: "a < 10 \<Longrightarrow> b < 10 \<Longrightarrow> digit_char a < digit_char b \<longleftrightarrow> a < b"
  by (simp add: less_char_def of_char_digit)

lemma is_digit_digit_char: "n < 10 \<Longrightarrow> is_digit (digit_char n)"
  by (simp add: is_digit_def less_eq_char_def of_char_digit)

lemma read_digit_digit: "n < 10 \<Longrightarrow> read_digit (digit_char n) = Some n"
  by (simp add: read_digit_def is_digit_digit_char of_char_digit)

lemma is_digit_not_sep:
  "is_digit c \<Longrightarrow> c \<noteq> CHR ''.'' \<and> c \<noteq> CHR '','' \<and> c \<noteq> CHR ''|'' \<and> c \<noteq> CHR ''-''"
  by (auto simp: is_digit_def less_eq_char_def)

lemma read_digits_snoc:
  "d < 10 \<Longrightarrow>
   read_digits a (xs @ [digit_char d]) = map_option (\<lambda>v. 10 * v + d) (read_digits a xs)"
  by (induction xs arbitrary: a) (auto simp: read_digit_digit split: option.splits)

lemma less_append_same_length:
  fixes xs :: "'a::linorder list"
  assumes "length xs = length xs'"
  shows "xs @ ys < xs' @ ys' \<longleftrightarrow> xs < xs' \<or> xs = xs' \<and> ys < ys'"
  using assms by (induction xs xs' rule: list_induct2) auto

lemma length_zpad: "length (zpad k n) = k"
  by (induction k arbitrary: n) auto

lemma zpad_digits: "\<forall>c\<in>set (zpad k n). is_digit c"
  by (induction k arbitrary: n) (auto simp: is_digit_digit_char)

lemma read_digits_zpad: "read_digits 0 (zpad k n) = Some (n mod 10 ^ k)"
proof (induction k arbitrary: n)
  case 0
  show ?case by simp
next
  case (Suc k)
  have d: "n mod 10 < 10" by simp
  have "n mod (10 * 10 ^ k) = 10 * (n div 10 mod 10 ^ k) + n mod 10"
    by (rule mod_mult2_eq)
  then have "Some (n mod 10 ^ Suc k)
      = map_option (\<lambda>v. 10 * v + n mod 10) (Some (n div 10 mod 10 ^ k))"
    by (simp only: power_Suc option.map)
  also have "\<dots> = read_digits 0 (zpad k (n div 10) @ [digit_char (n mod 10)])"
    by (simp only: read_digits_snoc[OF d] Suc.IH)
  finally show ?case by (simp only: zpad.simps)
qed

lemma zpad_inj:
  assumes "a < 10 ^ k" "b < 10 ^ k" "zpad k a = zpad k b"
  shows "a = b"
proof -
  have "Some (a mod 10 ^ k) = read_digits 0 (zpad k a)" by (simp only: read_digits_zpad)
  also have "\<dots> = Some (b mod 10 ^ k)" by (simp only: assms(3) read_digits_zpad)
  finally have "a mod 10 ^ k = b mod 10 ^ k" by simp
  with assms(1,2) show ?thesis by simp
qed

lemma less_by_digits_aux:
  fixes qa qb ra rb :: nat
  assumes "ra < 10" "rb < 10"
  shows "10 * qa + ra < 10 * qb + rb \<longleftrightarrow> qa < qb \<or> (qa = qb \<and> ra < rb)"
  using assms by arith

lemma less_by_digits:
  fixes a b :: nat
  shows "a < b \<longleftrightarrow> a div 10 < b div 10 \<or> (a div 10 = b div 10 \<and> a mod 10 < b mod 10)"
proof -
  have "10 * (a div 10) + a mod 10 < 10 * (b div 10) + b mod 10
        \<longleftrightarrow> a div 10 < b div 10 \<or> (a div 10 = b div 10 \<and> a mod 10 < b mod 10)"
    by (rule less_by_digits_aux) simp_all
  then show ?thesis by (simp only: mult_div_mod_eq)
qed

lemma zpad_less: "a < 10 ^ k \<Longrightarrow> b < 10 ^ k \<Longrightarrow> zpad k a < zpad k b \<longleftrightarrow> a < b"
proof (induction k arbitrary: a b)
  case 0
  then show ?case by simp
next
  case (Suc k)
  from Suc.prems have q: "a div 10 < 10 ^ k" "b div 10 < 10 ^ k"
    by (simp_all add: less_mult_imp_div_less mult.commute)
  have eq: "zpad k (a div 10) = zpad k (b div 10) \<longleftrightarrow> a div 10 = b div 10"
    using zpad_inj[OF q] by auto
  have d: "digit_char (a mod 10) < digit_char (b mod 10) \<longleftrightarrow> a mod 10 < b mod 10"
    by (rule digit_char_less) simp_all
  have "zpad (Suc k) a < zpad (Suc k) b \<longleftrightarrow>
        zpad k (a div 10) < zpad k (b div 10) \<or>
        zpad k (a div 10) = zpad k (b div 10)
          \<and> [digit_char (a mod 10)] < [digit_char (b mod 10)]"
    unfolding zpad.simps by (rule less_append_same_length) (simp only: length_zpad)
  also have "\<dots> \<longleftrightarrow> a div 10 < b div 10 \<or> (a div 10 = b div 10 \<and> a mod 10 < b mod 10)"
    unfolding Suc.IH[OF q] eq using d by simp
  finally show ?case using less_by_digits[of a b] by simp
qed

lemma show_nat_digits: "\<forall>c\<in>set (show_nat n). is_digit c"
proof (induction n rule: show_nat.induct)
  case (1 n)
  show ?case
  proof (cases "n < 10")
    case True
    then show ?thesis by (simp add: show_nat.simps[of n] is_digit_digit_char)
  next
    case False
    with 1 show ?thesis by (simp add: show_nat.simps[of n] is_digit_digit_char)
  qed
qed

lemma show_nat_nonempty: "show_nat n \<noteq> []"
  by (simp add: show_nat.simps[of n])

lemma read_digits_show_nat: "read_digits 0 (show_nat n) = Some n"
proof (induction n rule: show_nat.induct)
  case (1 n)
  show ?case
  proof (cases "n < 10")
    case True
    then show ?thesis by (simp add: show_nat.simps[of n] read_digit_digit)
  next
    case False
    with 1 show ?thesis by (simp add: show_nat.simps[of n] read_digits_snoc)
  qed
qed

lemma read_nat_show_nat: "read_nat (show_nat n) = Some n"
  by (simp add: read_nat_def show_nat_nonempty read_digits_show_nat)

lemma length_show_nat: "n < 10 ^ k \<Longrightarrow> 0 < k \<Longrightarrow> length (show_nat n) \<le> k"
proof (induction n arbitrary: k rule: show_nat.induct)
  case (1 n)
  show ?case
  proof (cases "n < 10")
    case True
    with 1 show ?thesis by (simp add: show_nat.simps[of n])
  next
    case False
    from False "1.prems" obtain j where k: "k = Suc j" "0 < j"
      by (cases k; cases "k - 1") auto
    with "1.prems" have "n div 10 < 10 ^ j"
      by (simp add: less_mult_imp_div_less mult.commute)
    with 1 False k have "length (show_nat (n div 10)) \<le> j" by blast
    with False k show ?thesis by (simp add: show_nat.simps[of n])
  qed
qed

lemma read_nat_pad4: "n < 10000 \<Longrightarrow> read_nat (pad4 n) = Some n"
  using read_digits_zpad[of 4 n] length_zpad[of 4 n]
  by (auto simp: read_nat_def pad4_def)

subsection \<open>The text of a decimal\<close>

lemma cast_decimal_dec_text: "cast_decimal (dec_text v) = Some v"
proof -
  let ?n = "nat \<bar>v\<bar>"
  let ?ip = "show_nat (?n div 10000)"
  let ?fp = "pad4 (?n mod 10000)"
  have nodot: "\<forall>c\<in>set ?ip. c \<noteq> CHR ''.''"
    using show_nat_digits is_digit_not_sep by blast
  have hd_ip: "take 1 (?ip @ ''.'' @ ?fp) \<noteq> ''-''"
    using show_nat_digits[of "?n div 10000"] is_digit_not_sep
      show_nat_nonempty[of "?n div 10000"]
    by (cases ?ip) auto
  have tw: "takeWhile (\<lambda>c. c \<noteq> CHR ''.'') (?ip @ ''.'' @ ?fp) = ?ip"
    using nodot by (simp add: takeWhile_append2)
  have dw: "drop 1 (dropWhile (\<lambda>c. c \<noteq> CHR ''.'') (?ip @ ''.'' @ ?fp)) = ?fp"
    using nodot by (simp add: dropWhile_append2)
  have len4: "length ?fp = 4"
    by (simp only: pad4_def length_zpad)
  then have fpne: "?fp \<noteq> []" "length ?fp = 4"
    by auto
  have val: "int (?n div 10000 * 10000 + ?n mod 10000) = \<bar>v\<bar>" by simp
  show ?thesis
  proof (cases "v < 0")
    case True
    then have "dec_text v = ''-'' @ ?ip @ ''.'' @ ?fp" by (simp add: dec_text_def)
    then show ?thesis
      using True tw dw fpne val
      by (simp add: cast_decimal_def Let_def read_nat_show_nat read_nat_pad4)
  next
    case False
    then have "dec_text v = ?ip @ ''.'' @ ?fp" by (simp add: dec_text_def)
    then show ?thesis
      using False tw dw fpne val hd_ip
      by (simp add: cast_decimal_def Let_def read_nat_show_nat read_nat_pad4)
  qed
qed

subsection \<open>Dates in text form\<close>

lemma pad2_less: "a < 100 \<Longrightarrow> b < 100 \<Longrightarrow> pad2 a < pad2 b \<longleftrightarrow> a < b"
  using zpad_less[of a 2 b] by (simp add: pad2_def)

lemma pad2_eq: "a < 100 \<Longrightarrow> b < 100 \<Longrightarrow> pad2 a = pad2 b \<longleftrightarrow> a = b"
  using zpad_inj[of a 2 b] by (auto simp: pad2_def)

lemma pad4_less: "a < 10000 \<Longrightarrow> b < 10000 \<Longrightarrow> pad4 a < pad4 b \<longleftrightarrow> a < b"
  using zpad_less[of a 4 b] by (simp add: pad4_def)

lemma pad4_eq: "a < 10000 \<Longrightarrow> b < 10000 \<Longrightarrow> pad4 a = pad4 b \<longleftrightarrow> a = b"
  using zpad_inj[of a 4 b] by (auto simp: pad4_def)

lemma length_pad [simp]: "length (pad2 n) = 2" "length (pad4 n) = 4"
  by (simp_all add: pad2_def pad4_def length_zpad)

lemma days_in_month_le: "days_in_month y m \<le> 31"
  by (simp add: days_in_month_def)

lemma length_date_format: "length (date_format ts) = 14"
  by (cases ts rule: date_format.cases) simp

lemma date_format_digits: "\<forall>c\<in>set (date_format ts). is_digit c"
  using zpad_digits by (cases ts rule: date_format.cases) (auto simp: pad2_def pad4_def)

lemma date_format_less:
  assumes "valid_datetime a" "valid_datetime b" "a < b"
  shows "date_format a @ x < date_format b @ y"
proof -
  obtain ya ma da ha ia sa where a: "a = ((ya, ma, da), (ha, ia, sa))"
    by (cases a rule: date_format.cases)
  obtain yb mb db hb ib sb where b: "b = ((yb, mb, db), (hb, ib, sb))"
    by (cases b rule: date_format.cases)
  have ba: "ya < 10000" "ma < 100" "da < 100" "ha < 100" "ia < 100" "sa < 100"
    using assms(1) days_in_month_le[of ya ma] by (auto simp: a valid_datetime_def)
  have bb: "yb < 10000" "mb < 100" "db < 100" "hb < 100" "ib < 100" "sb < 100"
    using assms(2) days_in_month_le[of yb mb] by (auto simp: b valid_datetime_def)
  have "date_format a < date_format b"
    using assms(3) ba bb
    apply (simp add: a b less_append_same_length pad2_less pad2_eq pad4_less pad4_eq
        less_prod_def less_eq_prod_def)
    apply (thin_tac "_ < 10000")+
    apply (thin_tac "_ < 100")+
    apply auto
    done
  then show ?thesis
    by (simp add: less_append_same_length length_date_format)
qed

subsection \<open>Texts of a group\<close>

lemma dec_text_chars: "\<forall>c\<in>set (dec_text v). is_digit c \<or> c = CHR ''-'' \<or> c = CHR ''.''"
  using show_nat_digits zpad_digits by (auto simp: dec_text_def pad4_def)

lemma dec_text_no_sep: "CHR '','' \<notin> set (dec_text v)" "CHR ''|'' \<notin> set (dec_text v)"
  using dec_text_chars[of v] is_digit_not_sep by auto

lemma length_dec_text:
  assumes "decimal_10_4 v"
  shows "length (dec_text v) \<le> 12"
proof -
  have "nat \<bar>v\<bar> < 10000000000" using assms by (simp add: decimal_10_4_def)
  then have "nat \<bar>v\<bar> div 10000 < 10 ^ 6" by simp
  then have six: "length (show_nat (nat \<bar>v\<bar> div 10000)) \<le> 6" by (rule length_show_nat) simp
  have "length (dec_text v) \<le> 1 + (length (show_nat (nat \<bar>v\<bar> div 10000)) + (1 + 4))"
    unfolding dec_text_def length_append by (simp only: length_pad split: if_splits) simp
  with six show ?thesis by linarith
qed

lemma takeWhile_take_first:
  assumes "d \<notin> set t" "length t < n" "rest = [] \<or> hd rest = d"
  shows "takeWhile (\<lambda>c. c \<noteq> d) (take n (t @ rest)) = t"
proof (cases rest)
  case Nil
  with assms show ?thesis by (auto simp: takeWhile_eq_all_conv)
next
  case (Cons c cs)
  with assms(3) have c: "c = d" by simp
  from assms(2) obtain k where k: "n - length t = Suc k" by (cases "n - length t") auto
  have tk: "take n (t @ rest) = t @ d # take k cs"
    using assms(2) k by (simp add: Cons c)
  have "takeWhile (\<lambda>c. c \<noteq> d) (t @ d # take k cs) = t"
    using assms(1) by (induction t) auto
  then show ?thesis by (simp only: tk)
qed

lemma join_commas_Cons: "join_commas (t # ts) = t @ (if ts = [] then [] else CHR '','' # join_commas ts)"
  by (cases ts) simp_all

lemma concat_first:
  assumes "col y = Some v" "decimal_10_4 v"
  shows "Option.bind (group_concat (map dec_text (List.map_filter col (y # ys))))
           (\<lambda>s. cast_decimal (substring_index_first CHR '','' s)) = Some v"
proof -
  have mf: "List.map_filter col (y # ys) = v # List.map_filter col ys"
    using assms(1) by (simp add: List.map_filter_simps)
  have len: "length (dec_text v) < 1024" using length_dec_text[OF assms(2)] by simp
  have "substring_index_first CHR '','' (take 1024 (join_commas (dec_text v # map dec_text (List.map_filter col ys)))) = dec_text v"
    unfolding substring_index_first_def join_commas_Cons
    by (rule takeWhile_take_first) (use dec_text_no_sep len in auto)
  then show ?thesis
    by (simp add: assms(1) group_concat_def cast_decimal_dec_text)
qed

lemma sort_key_first:
  assumes "xs \<noteq> []"
  obtains y ys where "sort_key f xs = y # ys" "y \<in> set xs" "\<forall>x\<in>set xs. f y \<le> f x"
proof -
  have ne: "sort_key f xs \<noteq> []" using assms by (metis length_0_conv length_sort)
  then obtain y ys where s: "sort_key f xs = y # ys" by (cases "sort_key f xs") auto
  have "sorted (map f (sort_key f xs))" by (rule sorted_sort_key)
  with s have "\<forall>x\<in>set (y # ys). f y \<le> f x" by auto
  moreover have "set xs = set (y # ys)" using s by (metis set_sort)
  ultimately have "y \<in> set xs" "\<forall>x\<in>set xs. f y \<le> f x" by simp_all
  with that[OF s] show ?thesis by blast
qed

lemma sort_key_last:
  assumes "xs \<noteq> []"
  obtains y ys where "rev (sort_key f xs) = y # ys" "y \<in> set xs" "\<forall>x\<in>set xs. f x \<le> f y"
proof -
  have ne: "rev (sort_key f xs) \<noteq> []" using assms by (metis length_0_conv length_sort rev_is_Nil_conv)
  then obtain y ys where s: "rev (sort_key f xs) = y # ys" by (cases "rev (sort_key f xs)") auto
  then have s': "sort_key f xs = rev ys @ [y]" by (metis rev.simps(2) rev_rev_ident)
  have "sorted (map f (sort_key f xs))" by (rule sorted_sort_key)
  with s' have "\<forall>x\<in>set (rev ys @ [y]). f x \<le> f y" by (auto simp: sorted_append)
  moreover have "set xs = set (rev ys @ [y])" using s' by (metis set_sort)
  ultimately have "y \<in> set xs" "\<forall>x\<in>set xs. f x \<le> f y" by simp_all
  with that[OF s] show ?thesis by blast
qed

lemma sql_min_Min: "sql_min (x # xs) = Some (Min (set (x # xs)))"
  by (simp only: sql_min.simps Min.set_eq_fold)

lemma sql_max_Max: "sql_max (x # xs) = Some (Max (set (x # xs)))"
  by (simp only: sql_max.simps Max.set_eq_fold)

lemma takeWhile_until:
  "d \<notin> set t \<Longrightarrow> takeWhile (\<lambda>c. c \<noteq> d) (t @ d # rest) = t"
  by (induction t) auto

lemma substring_index_last_stamped:
  "substring_index_last CHR ''|'' (date_format ts @ CHR ''|'' # dec_text v) = dec_text v"
proof -
  have "CHR ''|'' \<notin> set (rev (dec_text v))"
    using dec_text_no_sep(2)[of v] by simp
  then have "takeWhile (\<lambda>c. c \<noteq> CHR ''|'') (rev (dec_text v) @ CHR ''|'' # rev (date_format ts))
        = rev (dec_text v)"
    by (rule takeWhile_until)
  then show ?thesis by (simp add: substring_index_last_def)
qed

section \<open>Properties of the resample statements\<close>

lemma where_valid_open:
  assumes "where_clause r" "valid_row r"
  obtains vo vc vh vl where "Open r = Some vo" "Close r = Some vc" "High r = Some vh"
    "Low r = Some vl" "decimal_10_4 vo" "decimal_10_4 vc" "valid_datetime (Timestamp r)"
  using assms by (auto simp: where_clause_def valid_row_def)

lemma option_open_first:
  assumes "grp \<noteq> []" "\<forall>r\<in>set grp. where_clause r \<and> valid_row r"
  shows "\<exists>r. first_by_timestamp grp r \<and> Open r \<noteq> None \<and> option_open grp = Open r"
proof -
  obtain y ys where s: "sort_key Timestamp grp = y # ys" and y: "y \<in> set grp"
    and least: "\<forall>x\<in>set grp. Timestamp y \<le> Timestamp x"
    using sort_key_first[OF assms(1), of Timestamp] by blast
  from y assms(2) obtain v where v: "Open y = Some v" "decimal_10_4 v"
    using where_valid_open by metis
  have "option_open grp = Some v"
    unfolding option_open_def s by (rule concat_first[of Open y v ys, OF v])
  with y least v show ?thesis by (auto simp: first_by_timestamp_def)
qed

lemma option_close_last:
  assumes "grp \<noteq> []" "\<forall>r\<in>set grp. where_clause r \<and> valid_row r"
  shows "\<exists>r. last_by_timestamp grp r \<and> Close r \<noteq> None \<and> option_close grp = Close r"
proof -
  obtain y ys where s: "rev (sort_key Timestamp grp) = y # ys" and y: "y \<in> set grp"
    and greatest: "\<forall>x\<in>set grp. Timestamp x \<le> Timestamp y"
    using sort_key_last[OF assms(1), of Timestamp] by blast
  from y assms(2) obtain v where v: "Close y = Some v" "decimal_10_4 v"
    using where_valid_open by metis
  have "option_close grp = Some v"
    unfolding option_close_def s by (rule concat_first[of Close y v ys, OF v])
  with y greatest v show ?thesis by (auto simp: last_by_timestamp_def)
qed

lemma stamped_texts:
  assumes "\<forall>r\<in>set grp. col r \<noteq> None"
  shows "List.map_filter (stamped col) grp
       = map (\<lambda>r. date_format (Timestamp r) @ ''|'' @ dec_text (the (col r))) grp"
  using assms by (induction grp) (auto simp: List.map_filter_simps stamped_def)

lemma stock_open_first:
  assumes "grp \<noteq> []" "\<forall>r\<in>set grp. where_clause r \<and> valid_row r"
  shows "\<exists>r. first_by_timestamp grp r \<and> Open r \<noteq> None \<and> stock_open grp = Open r"
proof -
  let ?st = "\<lambda>r. date_format (Timestamp r) @ ''|'' @ dec_text (the (Open r))"
  have nn: "\<forall>r\<in>set grp. Open r \<noteq> None" using assms(2) by (auto simp: where_clause_def)
  have texts: "List.map_filter (stamped Open) grp = map ?st grp" by (rule stamped_texts[OF nn])
  from assms(1) obtain x xs where grp: "grp = x # xs" by (cases grp) auto
  define m where "m = Min (set (map ?st grp))"
  have "sql_min (map ?st grp) = Some m"
    unfolding m_def grp list.map by (rule sql_min_Min)
  then have smin: "sql_min (List.map_filter (stamped Open) grp) = Some m"
    by (simp only: texts)
  have "m \<in> set (map ?st grp)" unfolding m_def using assms(1) by (intro Min_in) auto
  then obtain r where r: "r \<in> set grp" "m = ?st r" by auto
  have least: "Timestamp r \<le> Timestamp r'" if "r' \<in> set grp" for r'
  proof (rule ccontr)
    assume "\<not> Timestamp r \<le> Timestamp r'"
    then have lt: "Timestamp r' < Timestamp r" by simp
    have "valid_datetime (Timestamp r')" "valid_datetime (Timestamp r)"
      using that r(1) assms(2) by (auto simp: valid_row_def)
    then have "?st r' < ?st r" using lt by (intro date_format_less)
    moreover have "m \<le> ?st r'" unfolding m_def using that by (intro Min_le) auto
    ultimately show False using r(2) by simp
  qed
  from nn r(1) obtain v where v: "Open r = Some v" by auto
  have "stock_open grp = Some v"
    by (simp add: stock_open_def smin r(2) v substring_index_last_stamped cast_decimal_dec_text)
  with r(1) least v show ?thesis by (auto simp: first_by_timestamp_def)
qed

lemma stock_close_last:
  assumes "grp \<noteq> []" "\<forall>r\<in>set grp. where_clause r \<and> valid_row r"
  shows "\<exists>r. last_by_timestamp grp r \<and> Close r \<noteq> None \<and> stock_close grp = Close r"
proof -
  let ?st = "\<lambda>r. date_format (Timestamp r) @ ''|'' @ dec_text (the (Close r))"
  have nn: "\<forall>r\<in>set grp. Close r \<noteq> None" using assms(2) by (auto simp: where_clause_def)
  have texts: "List.map_filter (stamped Close) grp = map ?st grp" by (rule stamped_texts[OF nn])
  from assms(1) obtain x xs where grp: "grp = x # xs" by (cases grp) auto
  define m where "m = Max (set (map ?st grp))"
  have "sql_max (map ?st grp) = Some m"
    unfolding m_def grp list.map by (rule sql_max_Max)
  then have smax: "sql_max (List.map_filter (stamped Close) grp) = Some m"
    by (simp only: texts)
  have "m \<in> set (map ?st grp)" unfolding m_def using assms(1) by (intro Max_in) auto
  then obtain r where r: "r \<in> set grp" "m = ?st r" by auto
  have greatest: "Timestamp r' \<le> Timestamp r" if "r' \<in> set grp" for r'
  proof (rule ccontr)
    assume "\<not> Timestamp r' \<le> Timestamp r"
    then have lt: "Timestamp r < Timestamp r'" by simp
    have "valid_datetime (Timestamp r')" "valid_datetime (Timestamp r)"
      using that r(1) assms(2) by (auto simp: valid_row_def)
    then have "?st r < ?st r'" using lt by (intro date_format_less)
    moreover have "?st r' \<le> m" unfolding m_def using that by (intro Max_ge) auto
    ultimately show False using r(2) by simp
  qed
  from nn r(1) obtain v where v: "Close r = Some v" by auto
  have "stock_close grp = Some v"
    by (simp add: stock_close_def smax r(2) v substring_index_last_stamped cast_decimal_dec_text)
  with r(1) greatest v show ?thesis by (auto simp: last_by_timestamp_def)
qed

lemma sql_max_column:
  assumes "grp \<noteq> []" "\<forall>r\<in>set grp. col r \<noteq> None"
  shows "\<exists>h. sql_max (List.map_filter col grp) = Some h \<and> (\<exists>r\<in>set grp. col r = Some h)
             \<and> (\<forall>r\<in>set grp. \<forall>v. col r = Some v \<longrightarrow> v \<le> h)"
proof -
  have vals: "List.map_filter col grp = map (\<lambda>r. the (col r)) grp"
    using assms(2) by (induction grp) (auto simp: List.map_filter_simps)
  from assms(1) obtain x xs where grp: "grp = x # xs" by (cases grp) auto
  define h where "h = Max (set (map (\<lambda>r. the (col r)) grp))"
  have "sql_max (map (\<lambda>r. the (col r)) grp) = Some h"
    unfolding h_def grp list.map by (rule sql_max_Max)
  then have "sql_max (List.map_filter col grp) = Some h"
    by (simp only: vals)
  moreover have "h \<in> set (map (\<lambda>r. the (col r)) grp)"
    unfolding h_def using assms(1) by (intro Max_in) auto
  then have "\<exists>r\<in>set grp. col r = Some h" using assms(2) by auto
  moreover have "v \<le> h" if "r \<in> set grp" "col r = Some v" for r v
    unfolding h_def using that by (intro Max_ge) force+
  ultimately show ?thesis by blast
qed

lemma sql_min_column:
  assumes "grp \<noteq> []" "\<forall>r\<in>set grp. col r \<noteq> None"
  shows "\<exists>l. sql_min (List.map_filter col grp) = Some l \<and> (\<exists>r\<in>set grp. col r = Some l)
             \<and> (\<forall>r\<in>set grp. \<forall>v. col r = Some v \<longrightarrow> l \<le> v)"
proof -
  have vals: "List.map_filter col grp = map (\<lambda>r. the (col r)) grp"
    using assms(2) by (induction grp) (auto simp: List.map_filter_simps)
  from assms(1) obtain x xs where grp: "grp = x # xs" by (cases grp) auto
  define l where "l = Min (set (map (\<lambda>r. the (col r)) grp))"
  have "sql_min (map (\<lambda>r. the (col r)) grp) = Some l"
    unfolding l_def grp list.map by (rule sql_min_Min)
  then have "sql_min (List.map_filter col grp) = Some l"
    by (simp only: vals)
  moreover have "l \<in> set (map (\<lambda>r. the (col r)) grp)"
    unfolding l_def using assms(1) by (intro Min_in) auto
  then have "\<exists>r\<in>set grp. col r = Some l" using assms(2) by auto
  moreover have "l \<le> v" if "r \<in> set grp" "col r = Some v" for r v
    unfolding l_def using that by (intro Min_le) force+
  ultimately show ?thesis by blast
qed

lemma sql_sum_volume:
  "sql_sum (List.map_filter Volume grp)
   = (if list_all (\<lambda>r. Volume r = None) grp then None
      else Some (sum_list (map volume_or_zero grp)))"
proof -
  have s: "sum_list (List.map_filter Volume grp) = sum_list (map volume_or_zero grp)"
    by (induction grp) (auto simp: List.map_filter_simps volume_or_zero_def split: option.splits)
  have e: "List.map_filter Volume grp = [] \<longleftrightarrow> list_all (\<lambda>r. Volume r = None) grp"
    by (induction grp) (auto simp: List.map_filter_simps split: option.splits)
  show ?thesis
  proof (cases "List.map_filter Volume grp")
    case Nil
    with e show ?thesis by simp
  next
    case (Cons a as)
    with e s show ?thesis by (metis list.distinct(1) sql_sum.simps(2))
  qed
qed

lemma stock_candle_of_group:
  assumes "grp \<noteq> []" "\<forall>r\<in>set grp. where_clause r \<and> valid_row r"
  shows "sql_candle_of_group grp (stock_candle c grp)"
proof -
  have hn: "\<forall>r\<in>set grp. High r \<noteq> None" and ln: "\<forall>r\<in>set grp. Low r \<noteq> None"
    using assms(2) by (auto simp: where_clause_def)
  show ?thesis
    unfolding sql_candle_of_group_def prices_of_group_def stock_candle_def
    using stock_open_first[OF assms] stock_close_last[OF assms]
      sql_max_column[OF assms(1) hn] sql_min_column[OF assms(1) ln] sql_sum_volume[of grp]
    by simp
qed

lemma option_candle_of_group:
  assumes "grp \<noteq> []" "\<forall>r\<in>set grp. where_clause r \<and> valid_row r"
  shows "sql_candle_of_group grp (option_candle k grp)"
proof -
  have hn: "\<forall>r\<in>set grp. High r \<noteq> None" and ln: "\<forall>r\<in>set grp. Low r \<noteq> None"
    using assms(2) by (auto simp: where_clause_def)
  obtain s ct e c where k: "k = (s, ct, e, c)" by (cases k)
  show ?thesis
    unfolding sql_candle_of_group_def prices_of_group_def k option_candle.simps
    using option_open_first[OF assms] option_close_last[OF assms]
      sql_max_column[OF assms(1) hn] sql_min_column[OF assms(1) ln] sql_sum_volume[of grp]
    by simp
qed

lemma supported_timeframe_positive: "tf \<in> snd ` set TIMEFRAMES \<Longrightarrow> 0 < tf"
  by (auto simp: TIMEFRAMES_def)

lemma where_clause_session_row:
  "valid_time (snd (Timestamp r)) \<Longrightarrow> where_clause r \<longleftrightarrow> session_row r"
  by (auto simp: where_clause_def session_row_def in_session_seconds)

lemma set_resample_stock:
  "set (resample_stock rows tf)
   = (\<lambda>c. stock_candle c (stock_group tf rows c))
       ` (\<lambda>r. candle_ts (Timestamp r) tf) ` {r \<in> set rows. where_clause r}"
  by (simp add: resample_stock_def image_image) 

lemma set_resample_option:
  "set (resample_option rows tf)
   = (\<lambda>k. option_candle k (option_group tf rows k))
       ` option_key_of tf ` {r \<in> set rows. where_clause r}"
  by (simp add: resample_option_def image_image)

lemma Timestamp_stock_candle [simp]: "Timestamp (stock_candle c grp) = c"
  by (simp add: stock_candle_def)

lemma key_option_candle [simp]: "option_key_of_candle (option_candle k grp) = k"
  by (cases k) (simp add: option_key_of_candle_def)

lemma set_stock_group:
  "set (stock_group tf rows c) = {r \<in> set rows. where_clause r \<and> candle_ts (Timestamp r) tf = c}"
  by (auto simp: stock_group_def)

lemma set_option_group:
  "set (option_group tf rows k) = {r \<in> set rows. where_clause r \<and> option_key_of tf r = k}"
  by (auto simp: option_group_def)

lemma first_by_timestamp_unique:
  assumes "distinct (map Timestamp grp)" "first_by_timestamp grp a" "first_by_timestamp grp b"
  shows "a = b"
proof -
  have "Timestamp a = Timestamp b"
    using assms(2,3) by (auto simp: first_by_timestamp_def intro: antisym)
  moreover have "inj_on Timestamp (set grp)" using assms(1) by (simp add: distinct_map)
  ultimately show ?thesis using assms(2,3) by (auto simp: first_by_timestamp_def dest: inj_onD)
qed

lemma last_by_timestamp_unique:
  assumes "distinct (map Timestamp grp)" "last_by_timestamp grp a" "last_by_timestamp grp b"
  shows "a = b"
proof -
  have "Timestamp a = Timestamp b"
    using assms(2,3) by (auto simp: last_by_timestamp_def intro: antisym)
  moreover have "inj_on Timestamp (set grp)" using assms(1) by (simp add: distinct_map)
  ultimately show ?thesis using assms(2,3) by (auto simp: last_by_timestamp_def dest: inj_onD)
qed

section \<open>The resample claims\<close>

subsection \<open>Facts about the example rows\<close>

lemmas example_defs = example_stock_rows_def example_option_rows_def bar_0930_def bar_0931_def
  bar_0932_def bar_1559_def bar_1600_def bar_no_open_def example_bar_def example_option_bar_def
  call_450_0930_def call_450_0931_def call_455_0930_def stock_row.extend_def

lemma ex_valid: "list_all valid_row example_stock_rows" "list_all valid_row example_option_rows"
  by (simp_all add: example_defs valid_row_def valid_datetime_def decimal_10_4_def days_in_month_def)

lemma ex_where: "where_clause bar_0930" "where_clause bar_0931" "where_clause bar_0932" "where_clause bar_1559"
  "\<not> where_clause bar_1600" "\<not> where_clause bar_no_open"
  "where_clause call_450_0930" "where_clause call_450_0931" "where_clause call_455_0930"
  by (simp_all add: example_defs where_clause_def in_session_def less_eq_prod_def)

lemma ex_candle: 
  "candle_ts ((2026, 2, 3), (9, 30, 0)) 3 = ((2026, 2, 3), (9, 30, 0))"
  "candle_ts ((2026, 2, 3), (9, 31, 0)) 3 = ((2026, 2, 3), (9, 30, 0))"
  "candle_ts ((2026, 2, 3), (9, 32, 0)) 3 = ((2026, 2, 3), (9, 30, 0))"
  "candle_ts ((2026, 2, 3), (15, 59, 0)) 3 = ((2026, 2, 3), (15, 57, 0))"
proof -
  have s: "in_session ((2026, 2, 3), (9, 30, 0))" "in_session ((2026, 2, 3), (9, 31, 0))"
    "in_session ((2026, 2, 3), (9, 32, 0))" "in_session ((2026, 2, 3), (15, 59, 0))"
    by (simp_all add: in_session_def less_eq_prod_def)
  show "candle_ts ((2026, 2, 3), (9, 30, 0)) 3 = ((2026, 2, 3), (9, 30, 0))"
    using candle_ts_in_session(1)[OF s(1), of 3] by (simp add: time_of_seconds_def)
  show "candle_ts ((2026, 2, 3), (9, 31, 0)) 3 = ((2026, 2, 3), (9, 30, 0))"
    using candle_ts_in_session(1)[OF s(2), of 3] by (simp add: time_of_seconds_def)
  show "candle_ts ((2026, 2, 3), (9, 32, 0)) 3 = ((2026, 2, 3), (9, 30, 0))"
    using candle_ts_in_session(1)[OF s(3), of 3] by (simp add: time_of_seconds_def)
  show "candle_ts ((2026, 2, 3), (15, 59, 0)) 3 = ((2026, 2, 3), (15, 57, 0))"
    using candle_ts_in_session(1)[OF s(4), of 3] by (simp add: time_of_seconds_def)
qed

lemma ex_ts: "Timestamp bar_0930 = ((2026, 2, 3), (9, 30, 0))" "Timestamp bar_0931 = ((2026, 2, 3), (9, 31, 0))"
  "Timestamp bar_0932 = ((2026, 2, 3), (9, 32, 0))" "Timestamp bar_1559 = ((2026, 2, 3), (15, 59, 0))"
  "Timestamp call_450_0930 = ((2026, 2, 3), (9, 30, 0))" "Timestamp call_450_0931 = ((2026, 2, 3), (9, 31, 0))"
  "Timestamp call_455_0930 = ((2026, 2, 3), (9, 32, 0))"
  by (simp_all add: example_defs)

lemma ex_group: "stock_group 3 example_stock_rows ((2026, 2, 3), (9, 30, 0)) = [bar_0931, bar_0930, bar_0932]"
  by (simp add: stock_group_def example_stock_rows_def ex_where ex_ts ex_candle)


lemma ex_option_key:
  "option_key_of 3 call_450_0930 = (450, ''call'', ((2026, 2, 20), (0, 0, 0)), ((2026, 2, 3), (9, 30, 0)))"
  "option_key_of 3 call_450_0931 = (450, ''call'', ((2026, 2, 20), (0, 0, 0)), ((2026, 2, 3), (9, 30, 0)))"
  "option_key_of 3 call_455_0930 = (455, ''call'', ((2026, 2, 20), (0, 0, 0)), ((2026, 2, 3), (9, 30, 0)))"
  by (simp_all add: option_key_of_def ex_ts ex_candle) (simp_all add: example_defs)

lemma ex_option_group:
  "option_group 3 example_option_rows
     (450, ''call'', ((2026, 2, 20), (0, 0, 0)), ((2026, 2, 3), (9, 30, 0)))
   = [call_450_0931, call_450_0930]"
  by (simp add: option_group_def example_option_rows_def ex_where ex_option_key)

lemma stock_candle_in_resample:
  "r \<in> set rows \<Longrightarrow> where_clause r \<Longrightarrow>
   stock_candle (candle_ts (Timestamp r) tf) (stock_group tf rows (candle_ts (Timestamp r) tf))
     \<in> set (resample_stock rows tf)"
  unfolding set_resample_stock by blast

lemma option_candle_in_resample:
  "r \<in> set rows \<Longrightarrow> where_clause r \<Longrightarrow>
   option_candle (option_key_of tf r) (option_group tf rows (option_key_of tf r))
     \<in> set (resample_option rows tf)"
  unfolding set_resample_option by blast

subsection \<open>Bucket assignment\<close>

text \<open>
  C2. For an in-session timestamp and a supported timeframe, the bucket start is the
  timestamp's own date at 09:30:00 plus \<open>\<lfloor>m / tf\<rfloor> * tf\<close> minutes, where \<open>m\<close> is the number of
  whole minutes from 09:30:00 to the timestamp, in integer arithmetic; the timestamp lies in
  the half-open interval of \<open>tf\<close> minutes that starts there; and an in-session timestamp of
  another date has another bucket start.
\<close>

theorem bucket_start_formula:
  assumes "in_session ts" and "valid_time (snd ts)" and "tf \<in> snd ` set TIMEFRAMES"
  shows "candle_ts ts tf
           = (fst ts, time_of_seconds (seconds_of_day (9, 30, 0)
                + 60 * ((seconds_of_day (snd ts) - seconds_of_day (9, 30, 0)) div 60 div tf * tf)))
       \<and> valid_time (snd (candle_ts ts tf))
       \<and> seconds_of_day (snd (candle_ts ts tf))
           = seconds_of_day (9, 30, 0)
             + 60 * ((seconds_of_day (snd ts) - seconds_of_day (9, 30, 0)) div 60 div tf * tf)
       \<and> seconds_of_day (snd (candle_ts ts tf)) \<le> seconds_of_day (snd ts)
       \<and> seconds_of_day (snd ts) < seconds_of_day (snd (candle_ts ts tf)) + 60 * tf
       \<and> (\<forall>ts'. in_session ts' \<and> valid_time (snd ts') \<and> fst ts' \<noteq> fst ts
              \<longrightarrow> candle_ts ts' tf \<noteq> candle_ts ts tf)"
proof -
  define e where "e = (seconds_of_day (snd ts) - 34200) div 60"
  have tf: "0 < tf" using assms(3) by (rule supported_timeframe_positive)
  note c = candle_ts_in_session[OF assms(1,2) tf, folded e_def]
  have nine: "seconds_of_day (9, 30, 0) = 34200" by simp
  have tot: "0 \<le> 34200 + 60 * (e div tf * tf)" "34200 + 60 * (e div tf * tf) < 86400"
    using c(2,3,5,7) by linarith+
  have s: "seconds_of_day (snd (candle_ts ts tf)) = 34200 + 60 * (e div tf * tf)"
    and v: "valid_time (snd (candle_ts ts tf))"
    using seconds_of_time_of_seconds[OF tot] by (simp_all add: c(1))
  have le: "seconds_of_day (snd (candle_ts ts tf)) \<le> seconds_of_day (snd ts)"
    unfolding s using c(3,5) by linarith
  have lt: "seconds_of_day (snd ts) < seconds_of_day (snd (candle_ts ts tf)) + 60 * tf"
    unfolding s using c(4,6) by linarith
  have other: "candle_ts ts' tf \<noteq> candle_ts ts tf"
    if "in_session ts'" "valid_time (snd ts')" "fst ts' \<noteq> fst ts" for ts'
    using candle_ts_in_session(1)[OF that(1,2) tf] c(1) that(3) by simp
  show ?thesis
    unfolding nine using c(1) v s le lt other by (simp add: e_def)
qed

theorem bucket_start_formula_witness:
  "in_session ((2026, 2, 3), (15, 59, 0)) \<and> valid_time (15, 59, 0)
   \<and> 60 \<in> snd ` set TIMEFRAMES
   \<and> candle_ts ((2026, 2, 3), (15, 59, 0)) 60 = ((2026, 2, 3), (15, 30, 0))
   \<and> in_session ((2026, 2, 4), (9, 30, 0))
   \<and> candle_ts ((2026, 2, 4), (9, 30, 0)) 60 \<noteq> candle_ts ((2026, 2, 3), (15, 59, 0)) 60"
proof -
  have a: "in_session ((2026, 2, 3), (15, 59, 0))" and b: "in_session ((2026, 2, 4), (9, 30, 0))"
    by (simp_all add: in_session_def less_eq_prod_def)
  have v: "valid_time (snd ((2026, 2, 3), (15, 59, 0)))" by simp
  have t: "60 \<in> snd ` set TIMEFRAMES" by (simp add: TIMEFRAMES_def)
  note th = bucket_start_formula[OF a v t]
  from th have c1: "candle_ts ((2026, 2, 3), (15, 59, 0)) 60 = ((2026, 2, 3), (15, 30, 0))"
    by (simp add: time_of_seconds_def)
  from th have other: "\<forall>ts'. in_session ts' \<and> valid_time (snd ts')
        \<and> fst ts' \<noteq> fst ((2026::nat, 2::nat, 3::nat), (15::nat, 59::nat, 0::nat))
      \<longrightarrow> candle_ts ts' 60 \<noteq> candle_ts ((2026, 2, 3), (15, 59, 0)) 60"
    by (elim conjE)
  have c2: "candle_ts ((2026, 2, 4), (9, 30, 0)) 60 \<noteq> candle_ts ((2026, 2, 3), (15, 59, 0)) 60"
    using b by (intro other[rule_format]) simp
  from a b t c1 c2 show ?thesis by (simp only: simp_thms valid_time.simps) simp
qed

subsection \<open>Aggregation\<close>

lemma single_row_candle:
  fixes r :: "'a stock_row_scheme" and x :: "'b stock_row_scheme"
  assumes "sql_candle_of_group [r] x"
  shows "Open x = Open r \<and> Close x = Close r \<and> High x = High r \<and> Low x = Low r
       \<and> Volume x = Volume r"
  using assms
  unfolding sql_candle_of_group_def prices_of_group_def first_by_timestamp_def
    last_by_timestamp_def
  by (auto simp: volume_or_zero_def split: option.splits)

lemma ex_no_volume:
  "where_clause bar_no_volume" "valid_row bar_no_volume"
  "Timestamp bar_no_volume = ((2026, 2, 3), (9, 30, 0))" "Volume bar_no_volume = None"
  "where_clause call_no_volume" "valid_row call_no_volume"
  "option_key_of 3 call_no_volume
     = (450, ''call'', ((2026, 2, 20), (0, 0, 0)), ((2026, 2, 3), (9, 30, 0)))"
  "Volume call_no_volume = None"
  by (simp_all add: bar_no_volume_def call_no_volume_def example_bar_def stock_row.extend_def
      where_clause_def in_session_def less_eq_prod_def valid_row_def valid_datetime_def
      decimal_10_4_def days_in_month_def option_key_of_def ex_candle)

lemma ex_candle_values:
  fixes x :: "'b stock_row_scheme"
  assumes cg: "sql_candle_of_group [bar_0931, bar_0930, bar_0932] x"
  shows "Open x = Some 10000 \<and> Close x = Some 10100 \<and> High x = Some 10200
       \<and> Low x = Some 9975 \<and> Volume x = Some 600"
proof -
  let ?grp = "[bar_0931, bar_0930, bar_0932]"
  have le: "Timestamp bar_0930 \<le> Timestamp bar_0931" "Timestamp bar_0930 \<le> Timestamp bar_0932"
    "Timestamp bar_0931 \<le> Timestamp bar_0932" "\<not> Timestamp bar_0931 \<le> Timestamp bar_0930"
    "\<not> Timestamp bar_0932 \<le> Timestamp bar_0930" "\<not> Timestamp bar_0932 \<le> Timestamp bar_0931"
    by (simp_all add: ex_ts less_eq_prod_def)
  have first: "r = bar_0930" if "first_by_timestamp ?grp r" for r
    using that le unfolding first_by_timestamp_def by auto
  have last: "r = bar_0932" if "last_by_timestamp ?grp r" for r
    using that le unfolding last_by_timestamp_def by auto
  from cg have pg: "prices_of_group ?grp x"
    unfolding sql_candle_of_group_def by (rule conjunct1)
  from cg have vol0: "Volume x = (if list_all (\<lambda>r. Volume r = None) ?grp then None
                     else Some (sum_list (map volume_or_zero ?grp)))"
    unfolding sql_candle_of_group_def by (rule conjunct2)
  from pg have "Open x = Open bar_0930" "Close x = Close bar_0932"
    unfolding prices_of_group_def using first last by blast+
  then have oc: "Open x = Some 10000" "Close x = Some 10100" by (simp_all add: example_defs)
  have hs: "High bar_0930 = Some 10075" "High bar_0931 = Some 10150" "High bar_0932 = Some 10200"
    and ls: "Low bar_0930 = Some 9975" "Low bar_0931 = Some 10025" "Low bar_0932 = Some 10075"
    and vs: "Volume bar_0930 = Some 100" "Volume bar_0931 = Some 200" "Volume bar_0932 = Some 300"
    by (simp_all add: example_defs)
  from pg obtain h where h: "High x = Some h" "\<exists>r\<in>set ?grp. High r = Some h"
    "\<forall>r\<in>set ?grp. \<forall>v. High r = Some v \<longrightarrow> v \<le> h"
    unfolding prices_of_group_def by blast
  from h(2,3) have "h = 10200" by (auto simp: hs)
  with h(1) have hi: "High x = Some 10200" by simp
  from pg obtain l where l: "Low x = Some l" "\<exists>r\<in>set ?grp. Low r = Some l"
    "\<forall>r\<in>set ?grp. \<forall>v. Low r = Some v \<longrightarrow> l \<le> v"
    unfolding prices_of_group_def by blast
  from l(2,3) have "l = 9975" by (auto simp: ls)
  with l(1) have lo: "Low x = Some 9975" by simp
  from vol0 have vol: "Volume x = Some 600"
    by (simp add: vs volume_or_zero_def)
  from oc hi lo vol show ?thesis by (intro conjI)
qed

text \<open>
  C3, as the claim states it, fails where every volume of a group is \<open>NULL\<close> (the column
  \<open>Volume BIGINT\<close> allows it, and the filter looks at the four prices only): the group of the
  one row \<open>bar_no_volume\<close> has the sum of volumes 0, a \<open>NULL\<close> counting as zero, and its candle
  has the volume \<open>NULL\<close>; the same for the option statement.
\<close>

theorem null_volumes_give_null_volume:
  "where_clause bar_no_volume \<and> valid_row bar_no_volume
   \<and> stock_group 3 [bar_no_volume] ((2026, 2, 3), (9, 30, 0)) = [bar_no_volume]
   \<and> sum_list (map volume_or_zero [bar_no_volume]) = 0
   \<and> map Volume (resample_stock [bar_no_volume] 3) = [None]
   \<and> \<not> list_ex (candle_of_group [bar_no_volume]) (resample_stock [bar_no_volume] 3)
   \<and> where_clause call_no_volume \<and> valid_row call_no_volume
   \<and> option_group 3 [call_no_volume]
        (450, ''call'', ((2026, 2, 20), (0, 0, 0)), ((2026, 2, 3), (9, 30, 0))) = [call_no_volume]
   \<and> sum_list (map volume_or_zero [call_no_volume]) = 0
   \<and> map Volume (resample_option [call_no_volume] 3) = [None]
   \<and> \<not> list_ex (candle_of_group [call_no_volume]) (resample_option [call_no_volume] 3)"
proof -
  let ?k = "((2026::nat, 2::nat, 3::nat), (9::nat, 30::nat, 0::nat))"
  let ?ok = "(450::int, ''call'', ((2026::nat, 2::nat, 20::nat), (0::nat, 0::nat, 0::nat)), ?k)"
  have g: "stock_group 3 [bar_no_volume] ?k = [bar_no_volume]"
    by (simp add: stock_group_def ex_no_volume ex_candle)
  have og: "option_group 3 [call_no_volume] ?ok = [call_no_volume]"
    by (simp add: option_group_def ex_no_volume)
  have r: "resample_stock [bar_no_volume] 3 = [stock_candle ?k [bar_no_volume]]"
    by (simp add: resample_stock_def ex_no_volume ex_candle g)
  have ro: "resample_option [call_no_volume] 3 = [option_candle ?ok [call_no_volume]]"
    by (simp add: resample_option_def ex_no_volume og)
  have v: "Volume (stock_candle ?k [bar_no_volume]) = None"
    by (simp add: stock_candle_def List.map_filter_simps ex_no_volume)
  have vo: "Volume (option_candle ?ok [call_no_volume]) = None"
    by (simp add: List.map_filter_simps ex_no_volume)
  have z: "sum_list (map volume_or_zero [bar_no_volume]) = 0"
    "sum_list (map volume_or_zero [call_no_volume]) = 0"
    by (simp_all add: volume_or_zero_def ex_no_volume)
  have "\<not> candle_of_group [bar_no_volume] (stock_candle ?k [bar_no_volume])"
    unfolding candle_of_group_def v by simp
  then have n: "\<not> list_ex (candle_of_group [bar_no_volume]) (resample_stock [bar_no_volume] 3)"
    unfolding r by simp
  have "\<not> candle_of_group [call_no_volume] (option_candle ?ok [call_no_volume])"
    unfolding candle_of_group_def vo by simp
  then have no: "\<not> list_ex (candle_of_group [call_no_volume]) (resample_option [call_no_volume] 3)"
    unfolding ro by (simp del: option_candle.simps)
  have m: "map Volume (resample_stock [bar_no_volume] 3) = [None]"
    "map Volume (resample_option [call_no_volume] 3) = [None]"
    unfolding r ro by (simp_all add: v vo del: option_candle.simps)
  from ex_no_volume(1,2,5,6) g og z m n no show ?thesis by (simp only: simp_thms)
qed

text \<open>
  C3, amended. For every non-empty group of source rows (the rows of one bucket that pass the
  filter, and for options of one contract) either statement puts out a candle with the
  bucket start (and the contract) of the group, and only one; every candle it puts out belongs
  to a non-empty group; and the candle of a group is its aggregate: the open of a row with the
  minimum timestamp, the close of a row with the maximum timestamp, the greatest high, the
  least low, and as volume the sum of the volumes that are present, or \<open>NULL\<close> when every
  volume of the group is \<open>NULL\<close>. The candle of a group of one row has the five values of that
  row.
\<close>

theorem every_group_has_its_candle:
  fixes rows :: "'a stock_row_scheme list" and orows :: "option_row list"
  assumes "\<forall>r\<in>set rows. valid_row r" and "\<forall>r\<in>set orows. valid_row r"
  shows "(\<forall>c. stock_group tf rows c \<noteq> [] \<longrightarrow>
            (\<exists>x\<in>set (resample_stock rows tf).
               Timestamp x = c \<and> sql_candle_of_group (stock_group tf rows c) x))
       \<and> (\<forall>x\<in>set (resample_stock rows tf). stock_group tf rows (Timestamp x) \<noteq> [])
       \<and> distinct (map Timestamp (resample_stock rows tf))
       \<and> (\<forall>k. option_group tf orows k \<noteq> [] \<longrightarrow>
            (\<exists>x\<in>set (resample_option orows tf).
               option_key_of_candle x = k \<and> sql_candle_of_group (option_group tf orows k) x))
       \<and> (\<forall>x\<in>set (resample_option orows tf).
            option_group tf orows (option_key_of_candle x) \<noteq> [])
       \<and> distinct (map option_key_of_candle (resample_option orows tf))
       \<and> (\<forall>(r::'a stock_row_scheme) (x::stock_row). sql_candle_of_group [r] x \<longrightarrow>
            Open x = Open r \<and> Close x = Close r \<and> High x = High r \<and> Low x = Low r
            \<and> Volume x = Volume r)
       \<and> (\<forall>(r::option_row) (x::option_row). sql_candle_of_group [r] x \<longrightarrow>
            Open x = Open r \<and> Close x = Close r \<and> High x = High r \<and> Low x = Low r
            \<and> Volume x = Volume r)"
proof -
  have stock: "\<exists>x\<in>set (resample_stock rows tf).
      Timestamp x = c \<and> sql_candle_of_group (stock_group tf rows c) x"
    if ne: "stock_group tf rows c \<noteq> []" for c
  proof -
    from ne obtain r where "r \<in> set (stock_group tf rows c)" by (cases "stock_group tf rows c") auto
    then have r: "r \<in> set rows" "where_clause r" "candle_ts (Timestamp r) tf = c"
      by (simp_all add: set_stock_group)
    have m: "stock_candle c (stock_group tf rows c) \<in> set (resample_stock rows tf)"
      using stock_candle_in_resample[OF r(1,2), of tf] by (simp add: r(3))
    have "\<forall>x\<in>set (stock_group tf rows c). where_clause x \<and> valid_row x"
      using assms(1) by (simp add: set_stock_group)
    from stock_candle_of_group[OF ne this, of c] m show ?thesis
      by (intro bexI[of _ "stock_candle c (stock_group tf rows c)"]) simp_all
  qed
  have stock_ne: "stock_group tf rows (Timestamp x) \<noteq> []"
    if "x \<in> set (resample_stock rows tf)" for x
  proof -
    from that obtain r where r: "r \<in> set rows" "where_clause r"
      and x: "x = stock_candle (candle_ts (Timestamp r) tf)
                    (stock_group tf rows (candle_ts (Timestamp r) tf))"
      unfolding set_resample_stock by auto
    have "r \<in> set (stock_group tf rows (Timestamp x))" using r by (simp add: x set_stock_group)
    then show ?thesis by auto
  qed
  have stock_d: "distinct (map Timestamp (resample_stock rows tf))"
    by (simp add: resample_stock_def comp_def)
  have opt: "\<exists>x\<in>set (resample_option orows tf).
      option_key_of_candle x = k \<and> sql_candle_of_group (option_group tf orows k) x"
    if ne: "option_group tf orows k \<noteq> []" for k
  proof -
    from ne obtain r where "r \<in> set (option_group tf orows k)"
      by (cases "option_group tf orows k") auto
    then have r: "r \<in> set orows" "where_clause r" "option_key_of tf r = k"
      by (simp_all add: set_option_group)
    have m: "option_candle k (option_group tf orows k) \<in> set (resample_option orows tf)"
      using option_candle_in_resample[OF r(1,2), of tf] by (simp add: r(3))
    have "\<forall>x\<in>set (option_group tf orows k). where_clause x \<and> valid_row x"
      using assms(2) by (simp add: set_option_group)
    from option_candle_of_group[OF ne this, of k] m show ?thesis
      by (intro bexI[of _ "option_candle k (option_group tf orows k)"]) simp_all
  qed
  have opt_ne: "option_group tf orows (option_key_of_candle x) \<noteq> []"
    if "x \<in> set (resample_option orows tf)" for x
  proof -
    from that obtain r where r: "r \<in> set orows" "where_clause r"
      and x: "x = option_candle (option_key_of tf r) (option_group tf orows (option_key_of tf r))"
      unfolding set_resample_option by auto
    have "r \<in> set (option_group tf orows (option_key_of_candle x))"
      using r by (simp add: x set_option_group)
    then show ?thesis by auto
  qed
  have opt_d: "distinct (map option_key_of_candle (resample_option orows tf))"
    by (simp add: resample_option_def comp_def)
  show ?thesis
  proof (intro conjI allI impI ballI)
    fix c assume "stock_group tf rows c \<noteq> []"
    then show "\<exists>x\<in>set (resample_stock rows tf).
        Timestamp x = c \<and> sql_candle_of_group (stock_group tf rows c) x" by (rule stock)
  next
    fix x assume "x \<in> set (resample_stock rows tf)"
    then show "stock_group tf rows (Timestamp x) \<noteq> []" by (rule stock_ne)
  next
    show "distinct (map Timestamp (resample_stock rows tf))" by (rule stock_d)
  next
    fix k assume "option_group tf orows k \<noteq> []"
    then show "\<exists>x\<in>set (resample_option orows tf).
        option_key_of_candle x = k \<and> sql_candle_of_group (option_group tf orows k) x"
      by (rule opt)
  next
    fix x assume "x \<in> set (resample_option orows tf)"
    then show "option_group tf orows (option_key_of_candle x) \<noteq> []" by (rule opt_ne)
  next
    show "distinct (map option_key_of_candle (resample_option orows tf))" by (rule opt_d)
  next
    fix r :: "'a stock_row_scheme" and x :: stock_row
    assume "sql_candle_of_group [r] x"
    from single_row_candle[OF this]
    show "Open x = Open r" "Close x = Close r" "High x = High r" "Low x = Low r"
      "Volume x = Volume r" by simp_all
  next
    fix r :: option_row and x :: option_row
    assume "sql_candle_of_group [r] x"
    from single_row_candle[OF this]
    show "Open x = Open r" "Close x = Close r" "High x = High r" "Low x = Low r"
      "Volume x = Volume r" by simp_all
  qed
qed

theorem every_group_has_its_candle_witness:
  "list_all valid_row example_stock_rows \<and> list_all valid_row example_option_rows
   \<and> stock_group 3 example_stock_rows ((2026, 2, 3), (9, 30, 0)) = [bar_0931, bar_0930, bar_0932]
   \<and> (\<exists>x\<in>set (resample_stock example_stock_rows 3).
         Timestamp x = ((2026, 2, 3), (9, 30, 0))
         \<and> Open x = Some 10000 \<and> Close x = Some 10100 \<and> High x = Some 10200
         \<and> Low x = Some 9975 \<and> Volume x = Some 600)
   \<and> option_group 3 example_option_rows
        (450, ''call'', ((2026, 2, 20), (0, 0, 0)), ((2026, 2, 3), (9, 30, 0)))
      = [call_450_0931, call_450_0930]
   \<and> (\<exists>x\<in>set (resample_option example_option_rows 3).
         option_key_of_candle x
           = (450, ''call'', ((2026, 2, 20), (0, 0, 0)), ((2026, 2, 3), (9, 30, 0)))
         \<and> sql_candle_of_group [call_450_0931, call_450_0930] x)"
proof -
  let ?k = "((2026::nat, 2::nat, 3::nat), (9::nat, 30::nat, 0::nat))"
  let ?grp = "[bar_0931, bar_0930, bar_0932]"
  let ?ok = "(450::int, ''call'', ((2026::nat, 2::nat, 20::nat), (0::nat, 0::nat, 0::nat)), ?k)"
  let ?ogrp = "[call_450_0931, call_450_0930]"
  have v: "\<forall>r\<in>set example_stock_rows. valid_row r" "\<forall>r\<in>set example_option_rows. valid_row r"
    using ex_valid by (simp_all add: list_all_iff)
  note th = every_group_has_its_candle[OF v, of 3]
  have ne: "stock_group 3 example_stock_rows ?k \<noteq> []" by (simp add: ex_group)
  have one: "option_group 3 example_option_rows ?ok \<noteq> []" by (simp add: ex_option_group)
  have "\<exists>x\<in>set (resample_stock example_stock_rows 3).
      Timestamp x = ?k \<and> sql_candle_of_group (stock_group 3 example_stock_rows ?k) x"
    by (rule th[THEN conjunct1, rule_format, OF ne])
  then obtain x where x: "x \<in> set (resample_stock example_stock_rows 3)" "Timestamp x = ?k"
    and cg: "sql_candle_of_group ?grp x"
    unfolding ex_group by (elim bexE conjE)
  have sx: "\<exists>x\<in>set (resample_stock example_stock_rows 3).
         Timestamp x = ?k \<and> Open x = Some 10000 \<and> Close x = Some 10100 \<and> High x = Some 10200
         \<and> Low x = Some 9975 \<and> Volume x = Some 600"
    using x(1) by (rule bexI[rotated]) (simp only: x(2) ex_candle_values[OF cg] simp_thms)
  have "\<exists>x\<in>set (resample_option example_option_rows 3).
      option_key_of_candle x = ?ok \<and> sql_candle_of_group (option_group 3 example_option_rows ?ok) x"
    by (rule th[THEN conjunct2, THEN conjunct2, THEN conjunct2, THEN conjunct1, rule_format, OF one])
  then have ocg: "\<exists>x\<in>set (resample_option example_option_rows 3).
      option_key_of_candle x = ?ok \<and> sql_candle_of_group ?ogrp x"
    unfolding ex_option_group .
  show ?thesis
    apply (intro conjI)
         apply (rule ex_valid(1))
        apply (rule ex_valid(2))
       apply (rule ex_group)
      apply (rule sx)
     apply (rule ex_option_group)
    apply (rule ocg)
    done
qed

subsection \<open>Session and null filter\<close>

text \<open>
  C5. The rows the statements process are exactly the rows whose time of day lies between
  09:30:00 and 15:59:00, both included, and whose open, close, high and low are present: the
  output is the output for those rows alone, a source row is in the group of an output candle
  exactly when it is such a row, a row at 15:59:00 with its four prices qualifies and a row at
  16:00:00 does not.
\<close>

theorem resample_filters_session_rows:
  fixes rows :: "'a stock_row_scheme list" and orows :: "option_row list"
  assumes "\<forall>r\<in>set rows. valid_time (snd (Timestamp r))"
    and "\<forall>r\<in>set orows. valid_time (snd (Timestamp r))"
  shows "filter where_clause rows = filter session_row rows
       \<and> filter where_clause orows = filter session_row orows
       \<and> resample_stock rows tf = resample_stock (filter session_row rows) tf
       \<and> resample_option orows tf = resample_option (filter session_row orows) tf
       \<and> (\<forall>r\<in>set rows. session_row r \<longleftrightarrow>
             (\<exists>c\<in>set (resample_stock rows tf). r \<in> set (stock_group tf rows (Timestamp c))))
       \<and> (\<forall>r\<in>set orows. session_row r \<longleftrightarrow>
             (\<exists>c\<in>set (resample_option orows tf).
                r \<in> set (option_group tf orows (option_key_of_candle c))))
       \<and> (\<forall>r::'a stock_row_scheme. snd (Timestamp r) = (15, 59, 0) \<longrightarrow>
             (session_row r \<longleftrightarrow>
                Open r \<noteq> None \<and> Close r \<noteq> None \<and> High r \<noteq> None \<and> Low r \<noteq> None))
       \<and> (\<forall>r::'a stock_row_scheme. snd (Timestamp r) = (16, 0, 0) \<longrightarrow> \<not> session_row r)"
proof (intro conjI ballI allI impI)
  show eq: "filter where_clause rows = filter session_row rows"
    using assms(1) by (intro filter_cong) (auto simp: where_clause_session_row)
  show oeq: "filter where_clause orows = filter session_row orows"
    using assms(2) by (intro filter_cong) (auto simp: where_clause_session_row)
  have idem: "filter where_clause (filter session_row rows) = filter session_row rows"
    unfolding eq[symmetric] by simp
  have oidem: "filter where_clause (filter session_row orows) = filter session_row orows"
    unfolding oeq[symmetric] by simp
  show "resample_stock rows tf = resample_stock (filter session_row rows) tf"
    by (simp only: resample_stock_def stock_group_def idem eq)
  show "resample_option orows tf = resample_option (filter session_row orows) tf"
    by (simp only: resample_option_def option_group_def oidem oeq)
next
  fix r assume r: "r \<in> set rows"
  have w: "where_clause r \<longleftrightarrow> session_row r"
    using r assms(1) by (simp add: where_clause_session_row)
  show "session_row r \<longleftrightarrow>
      (\<exists>c\<in>set (resample_stock rows tf). r \<in> set (stock_group tf rows (Timestamp c)))"
    unfolding set_resample_stock set_stock_group using r w by auto
next
  fix r assume r: "r \<in> set orows"
  have w: "where_clause r \<longleftrightarrow> session_row r"
    using r assms(2) by (simp add: where_clause_session_row)
  show "session_row r \<longleftrightarrow>
      (\<exists>c\<in>set (resample_option orows tf).
          r \<in> set (option_group tf orows (option_key_of_candle c)))"
    unfolding set_resample_option set_option_group using r w by auto
next
  fix r :: "'a stock_row_scheme" assume "snd (Timestamp r) = (15, 59, 0)"
  then show "session_row r \<longleftrightarrow>
      Open r \<noteq> None \<and> Close r \<noteq> None \<and> High r \<noteq> None \<and> Low r \<noteq> None"
    by (simp add: session_row_def)
next
  fix r :: "'a stock_row_scheme" assume "snd (Timestamp r) = (16, 0, 0)"
  then show "\<not> session_row r" by (simp add: session_row_def)
qed

theorem resample_filters_session_rows_witness:
  "list_all (\<lambda>r. valid_time (snd (Timestamp r))) example_stock_rows
   \<and> list_all (\<lambda>r. valid_time (snd (Timestamp r))) example_option_rows
   \<and> filter where_clause example_stock_rows = [bar_0931, bar_0930, bar_0932, bar_1559]
   \<and> (\<exists>c\<in>set (resample_stock example_stock_rows 3).
         bar_1559 \<in> set (stock_group 3 example_stock_rows (Timestamp c)))
   \<and> \<not> (\<exists>c\<in>set (resample_stock example_stock_rows 3).
         bar_1600 \<in> set (stock_group 3 example_stock_rows (Timestamp c)))
   \<and> \<not> (\<exists>c\<in>set (resample_stock example_stock_rows 3).
         bar_no_open \<in> set (stock_group 3 example_stock_rows (Timestamp c)))
   \<and> (\<exists>c\<in>set (resample_option example_option_rows 3).
         call_450_0931 \<in> set (option_group 3 example_option_rows (option_key_of_candle c)))"
proof -
  have v: "list_all (\<lambda>r. valid_time (snd (Timestamp r))) example_stock_rows"
    "list_all (\<lambda>r. valid_time (snd (Timestamp r))) example_option_rows"
    by (simp_all add: example_defs)
  then have v': "\<forall>r\<in>set example_stock_rows. valid_time (snd (Timestamp r))"
    "\<forall>r\<in>set example_option_rows. valid_time (snd (Timestamp r))"
    by (simp_all add: list_all_iff)
  note th = resample_filters_session_rows[OF v', of 3]
  have s: "session_row bar_1559" "\<not> session_row bar_1600" "\<not> session_row bar_no_open"
    "session_row call_450_0931"
    by (simp_all add: session_row_def example_defs)
  have m: "bar_1559 \<in> set example_stock_rows" "bar_1600 \<in> set example_stock_rows"
    "bar_no_open \<in> set example_stock_rows" "call_450_0931 \<in> set example_option_rows"
    by (simp_all add: example_stock_rows_def example_option_rows_def)
  have f: "filter where_clause example_stock_rows = [bar_0931, bar_0930, bar_0932, bar_1559]"
    by (simp add: example_stock_rows_def ex_where)
  from th have stock: "\<forall>r\<in>set example_stock_rows. session_row r \<longleftrightarrow>
      (\<exists>c\<in>set (resample_stock example_stock_rows 3).
          r \<in> set (stock_group 3 example_stock_rows (Timestamp c)))"
    by (elim conjE)
  from th have opt: "\<forall>r\<in>set example_option_rows. session_row r \<longleftrightarrow>
      (\<exists>c\<in>set (resample_option example_option_rows 3).
          r \<in> set (option_group 3 example_option_rows (option_key_of_candle c)))"
    by (elim conjE)
  show ?thesis
    using v f stock[rule_format, OF m(1)] stock[rule_format, OF m(2)] stock[rule_format, OF m(3)]
      opt[rule_format, OF m(4)] s
    by simp
qed

subsection \<open>The two ways of taking the first and the last value\<close>

text \<open>
  C10. For a group whose timestamps are pairwise distinct, the stock statement's
  \<open>MIN\<close>/\<open>MAX\<close> over \<open>timestamp|value\<close> texts and the option statement's ordered
  \<open>GROUP_CONCAT\<close> select the same rows: both give the open of the row with the earliest
  timestamp and the close of the row with the latest.
\<close>

theorem stock_and_option_select_same_rows:
  assumes "grp \<noteq> []" and "\<forall>r\<in>set grp. where_clause r \<and> valid_row r"
    and "distinct (map Timestamp grp)"
  shows "(\<forall>r. first_by_timestamp grp r \<longrightarrow> stock_open grp = Open r \<and> option_open grp = Open r)
       \<and> (\<forall>r. last_by_timestamp grp r \<longrightarrow> stock_close grp = Close r \<and> option_close grp = Close r)
       \<and> (\<exists>r. first_by_timestamp grp r) \<and> (\<exists>r. last_by_timestamp grp r)"
  using stock_open_first[OF assms(1,2)] option_open_first[OF assms(1,2)]
    stock_close_last[OF assms(1,2)] option_close_last[OF assms(1,2)]
    first_by_timestamp_unique[OF assms(3)] last_by_timestamp_unique[OF assms(3)]
  by metis

theorem stock_and_option_select_same_rows_witness:
  "[bar_0931, bar_0930, bar_0932] \<noteq> []
   \<and> list_all (\<lambda>r. where_clause r \<and> valid_row r) [bar_0931, bar_0930, bar_0932]
   \<and> distinct (map Timestamp [bar_0931, bar_0930, bar_0932])
   \<and> first_by_timestamp [bar_0931, bar_0930, bar_0932] bar_0930
   \<and> last_by_timestamp [bar_0931, bar_0930, bar_0932] bar_0932
   \<and> stock_open [bar_0931, bar_0930, bar_0932] = Some 10000
   \<and> option_open [bar_0931, bar_0930, bar_0932] = Some 10000
   \<and> stock_close [bar_0931, bar_0930, bar_0932] = Some 10100
   \<and> option_close [bar_0931, bar_0930, bar_0932] = Some 10100"
proof -
  let ?grp = "[bar_0931, bar_0930, bar_0932]"
  have ne: "?grp \<noteq> []" by simp
  have wv: "list_all (\<lambda>r. where_clause r \<and> valid_row r) ?grp"
    using ex_valid(1) by (simp add: ex_where example_stock_rows_def)
  then have wv': "\<forall>r\<in>set ?grp. where_clause r \<and> valid_row r" by (simp add: list_all_iff)
  have d: "distinct (map Timestamp ?grp)" by (simp add: ex_ts)
  have first: "first_by_timestamp ?grp bar_0930"
    by (simp add: first_by_timestamp_def ex_ts less_eq_prod_def)
  have last: "last_by_timestamp ?grp bar_0932"
    by (simp add: last_by_timestamp_def ex_ts less_eq_prod_def)
  note th = stock_and_option_select_same_rows[OF ne wv' d]
  from th first have "stock_open ?grp = Open bar_0930" "option_open ?grp = Open bar_0930" by blast+
  moreover from th last have "stock_close ?grp = Close bar_0932" "option_close ?grp = Close bar_0932"
    by blast+
  ultimately show ?thesis using ne wv d first last by (simp add: example_defs)
qed

section \<open>Properties of the partition of a batch\<close>

lemma traverse_Inr:
  "traverse f xs = Inr ys \<Longrightarrow> list_all2 (\<lambda>x y. f x = Inr y) xs ys"
  by (induction xs arbitrary: ys) (auto split: sum.splits)

lemma traverse_Inr_length: "traverse f xs = Inr ys \<Longrightarrow> length ys = length xs"
  by (drule traverse_Inr) (simp add: list_all2_lengthD)

lemma length_keep_first_le: "length (keep_first cols seen rs) \<le> length rs"
  by (induction rs arbitrary: seen) (auto intro: le_SucI)

lemma keep_first_keys:
  "distinct (map (\<lambda>r. map r cols) (keep_first cols seen rs))
   \<and> (\<forall>r\<in>set (keep_first cols seen rs). map r cols \<notin> set seen)"
proof (induction rs arbitrary: seen)
  case Nil
  show ?case by simp
next
  case (Cons r rs)
  show ?case
  proof (cases "map r cols \<in> set seen")
    case True
    with Cons[of seen] show ?thesis by simp
  next
    case False
    with Cons[of "map r cols # seen"] show ?thesis by auto
  qed
qed

lemma distinct_map_selected:
  "distinct (map f xs) \<Longrightarrow> distinct (map f (map fst (filter P (zip xs ys))))"
proof (induction xs arbitrary: ys)
  case Nil
  show ?case by simp
next
  case (Cons x xs)
  show ?case
  proof (cases ys)
    case Nil
    then show ?thesis by simp
  next
    case (Cons y ys')
    have "set (map fst (filter P (zip xs ys'))) \<subseteq> set xs"
      by (auto dest: set_zip_leftD)
    with Cons.prems Cons.IH[of ys'] Cons show ?thesis by auto
  qed
qed

lemma selected_flag:
  assumes "list_all2 (\<lambda>x y. f x = Inr y) xs ys"
    and "r \<in> set (map fst (filter (\<lambda>(r, m). m = b) (zip xs ys)))"
  shows "f r = Inr b"
proof -
  from assms(2) have "(r, b) \<in> set (zip xs ys)" by auto
  with assms(1) show ?thesis by (auto simp: list_all2_iff)
qed

lemma set_keep_first: "set (keep_first cols seen rs) \<subseteq> set rs"
  by (induction rs arbitrary: seen) auto

lemma set_selected: "set (map fst (filter P (zip xs ys))) \<subseteq> set xs"
  by (auto dest: set_zip_leftD)

lemma distinct_map_finer:
  assumes "distinct (map f xs)"
    and "\<And>a b. a \<in> set xs \<Longrightarrow> b \<in> set xs \<Longrightarrow> g a = g b \<Longrightarrow> f a = f b"
  shows "distinct (map g xs)"
  using assms
proof (induction xs)
  case Nil
  show ?case by simp
next
  case (Cons x xs)
  have d: "distinct (map f xs)" and nx: "f x \<notin> f ` set xs"
    using Cons.prems(1) by simp_all
  have tl: "distinct (map g xs)"
  proof (rule Cons.IH[OF d])
    fix a b assume "a \<in> set xs" "b \<in> set xs" "g a = g b"
    then show "f a = f b" by (intro Cons.prems(2)) simp_all
  qed
  have "g x \<notin> g ` set xs"
  proof
    assume "g x \<in> g ` set xs"
    then obtain y where y: "y \<in> set xs" "g x = g y" by blast
    have "f x = f y" by (rule Cons.prems(2)) (simp_all add: y)
    with y(1) nx show False by blast
  qed
  with tl show ?case by simp
qed

lemma partition_batch_parts:
  assumes "partition_batch t existing_rows merged = Inr (csv_dupes, p)"
  shows "partition_rows t existing_rows (keep_first (key_cols t) [] (fr_rows merged)) = Inr p"
    and "csv_dupes = length (fr_rows merged) - length (keep_first (key_cols t) [] (fr_rows merged))"
proof -
  from assms obtain deduped where dd: "drop_duplicates (key_cols t) merged = Inr deduped"
    and pr: "partition_rows t existing_rows (fr_rows deduped) = Inr p"
    and cd: "csv_dupes = length (fr_rows merged) - length (fr_rows deduped)"
    unfolding partition_batch_def by (simp split: sum.splits)
  from dd have rows: "fr_rows deduped = keep_first (key_cols t) [] (fr_rows merged)"
    unfolding drop_duplicates_def by (simp split: if_splits) (metis frame.select_convs(2) frame.surjective frame.update_convs(2))
  from pr cd rows show "partition_rows t existing_rows (keep_first (key_cols t) [] (fr_rows merged)) = Inr p"
    and "csv_dupes = length (fr_rows merged) - length (keep_first (key_cols t) [] (fr_rows merged))"
    by simp_all
qed

lemma partition_rows_parts:
  assumes "partition_rows t existing_rows rows = Inr p"
  obtains ks flags where "traverse (existing_key t) existing_rows = Inr ks"
    and "traverse (row_exists t ks) rows = Inr flags"
    and "pt_new_rows p = map fst (filter (\<lambda>(r, m). m = False) (zip rows flags))"
    and "pt_duplicate_rows p = map fst (filter (\<lambda>(r, m). m = True) (zip rows flags))"
proof -
  have e1: "(\<lambda>(r, m). \<not> m) = (\<lambda>(r::csv_row, m). m = False)" by auto
  have e2: "(\<lambda>(r, m). m) = (\<lambda>(r::csv_row, m). m = True)" by auto
  from assms obtain ks where ks: "traverse (existing_key t) existing_rows = Inr ks"
    unfolding partition_rows_def by (cases "traverse (existing_key t) existing_rows") simp_all
  with assms obtain flags where fl: "traverse (row_exists t ks) rows = Inr flags"
    unfolding partition_rows_def by (cases "traverse (row_exists t ks) rows") simp_all
  from assms ks fl have "p = \<lparr> pt_new_rows = map fst (filter (\<lambda>(r, m). \<not> m) (zip rows flags)),
                     pt_duplicate_rows = map fst (filter (\<lambda>(r, m). m) (zip rows flags)) \<rparr>"
    unfolding partition_rows_def by simp
  then have "pt_new_rows p = map fst (filter (\<lambda>(r, m). m = False) (zip rows flags))"
    and "pt_duplicate_rows p = map fst (filter (\<lambda>(r, m). m = True) (zip rows flags))"
    unfolding e1 e2 by simp_all
  with ks fl that show ?thesis by blast
qed

lemma row_exists_flag:
  "row_exists t ks r = Inr b \<Longrightarrow> \<exists>k. row_key t r = Inr k \<and> (k \<in> set ks) = b"
  unfolding row_exists_def by (cases "row_key t r") simp_all

lemma length_selected:
  "length xs = length ys \<Longrightarrow>
   length (map fst (filter (\<lambda>(r, m). m = False) (zip xs ys)))
     + length (map fst (filter (\<lambda>(r, m). m = True) (zip xs ys))) = length xs"
  by (induction xs ys rule: list_induct2) auto

lemma partition_rows_props:
  assumes "partition_rows t existing_rows rows = Inr p"
  shows "length (pt_new_rows p) + length (pt_duplicate_rows p) = length rows"
    and "\<exists>ks. traverse (existing_key t) existing_rows = Inr ks
          \<and> (\<forall>r\<in>set (pt_new_rows p). \<exists>k. row_key t r = Inr k \<and> k \<notin> set ks)
          \<and> (\<forall>r\<in>set (pt_duplicate_rows p). \<exists>k. row_key t r = Inr k \<and> k \<in> set ks)"
    and "set (pt_new_rows p) \<subseteq> set rows"
    and "distinct (map f rows) \<Longrightarrow> distinct (map f (pt_new_rows p))"
proof -
  from assms obtain ks flags where ks: "traverse (existing_key t) existing_rows = Inr ks"
    and fl: "traverse (row_exists t ks) rows = Inr flags"
    and new: "pt_new_rows p = map fst (filter (\<lambda>(r, m). m = False) (zip rows flags))"
    and dup: "pt_duplicate_rows p = map fst (filter (\<lambda>(r, m). m = True) (zip rows flags))"
    by (rule partition_rows_parts)
  note all2 = traverse_Inr[OF fl]
  have len: "length rows = length flags" using all2 by (rule list_all2_lengthD)
  show "length (pt_new_rows p) + length (pt_duplicate_rows p) = length rows"
    unfolding new dup by (rule length_selected[OF len])
  have newk: "\<exists>k. row_key t r = Inr k \<and> k \<notin> set ks" if "r \<in> set (pt_new_rows p)" for r
  proof -
    from that have "row_exists t ks r = Inr False"
      unfolding new by (rule selected_flag[OF all2])
    from row_exists_flag[OF this] show ?thesis by simp
  qed
  have dupk: "\<exists>k. row_key t r = Inr k \<and> k \<in> set ks" if "r \<in> set (pt_duplicate_rows p)" for r
  proof -
    from that have "row_exists t ks r = Inr True"
      unfolding dup by (rule selected_flag[OF all2])
    from row_exists_flag[OF this] show ?thesis by simp
  qed
  from ks newk dupk
  show "\<exists>ks. traverse (existing_key t) existing_rows = Inr ks
          \<and> (\<forall>r\<in>set (pt_new_rows p). \<exists>k. row_key t r = Inr k \<and> k \<notin> set ks)
          \<and> (\<forall>r\<in>set (pt_duplicate_rows p). \<exists>k. row_key t r = Inr k \<and> k \<in> set ks)"
    by blast
  show "set (pt_new_rows p) \<subseteq> set rows"
    unfolding new by (rule set_selected)
  show "distinct (map f (pt_new_rows p))" if "distinct (map f rows)"
    unfolding new using that by (rule distinct_map_selected)
qed


end
